theory Spec2Isabelle
  imports Complex_Main
begin

section \<open>Python values\<close>

text \<open>
  A Python \<open>str\<close> is a sequence of Unicode code points, so it is modelled as a list of
  naturals; \<open>str\<close> embeds an ASCII literal. A Python \<open>float\<close> is modelled as a real
  number: arithmetic is exact, and the only rounding is the explicit \<open>round(x, 3)\<close>
  of the source. A floating-point result can differ from the exact one in the last
  bit, which matters only where a comparison is decided by an exact tie or a value
  lies on a rounding or class boundary.
\<close>

type_synonym pystr = "nat list"

definition str :: "string \<Rightarrow> pystr" where
  "str s = map of_char s"

text \<open>
  \<open>s.lower()\<close> and \<open>s.upper()\<close>, on the ASCII letters; code points outside
  \<open>A-Z\<close> and \<open>a-z\<close> are left as they are, so the two agree with Python on ASCII
  strings only (Python also maps, for instance, the Kelvin sign U+212A to \<open>k\<close>). The
  keyword classifier below therefore takes the lower-casing function as a parameter.
\<close>

definition py_lower :: "pystr \<Rightarrow> pystr" where
  "py_lower s = map (\<lambda>c. if 65 \<le> c \<and> c \<le> 90 then c + 32 else c) s"

definition py_upper :: "pystr \<Rightarrow> pystr" where
  "py_upper s = map (\<lambda>c. if 97 \<le> c \<and> c \<le> 122 then c - 32 else c) s"

text \<open>\<open>kw in text\<close>: \<open>kw\<close> occurs in \<open>text\<close> as a contiguous substring.\<close>

fun starts_with :: "pystr \<Rightarrow> pystr \<Rightarrow> bool" where
  "starts_with [] ys = True"
| "starts_with (x # xs) [] = False"
| "starts_with (x # xs) (y # ys) = (x = y \<and> starts_with xs ys)"

fun py_in :: "pystr \<Rightarrow> pystr \<Rightarrow> bool" where
  "py_in kw [] = (kw = [])"
| "py_in kw (c # cs) = (starts_with kw (c # cs) \<or> py_in kw cs)"

text \<open>\<open>c.isspace()\<close> for one code point, and \<open>s.strip()\<close>.\<close>

definition py_isspace :: "nat \<Rightarrow> bool" where
  "py_isspace c \<longleftrightarrow>
     (9 \<le> c \<and> c \<le> 13) \<or> (28 \<le> c \<and> c \<le> 32) \<or> c = 133 \<or> c = 160 \<or> c = 5760
     \<or> (8192 \<le> c \<and> c \<le> 8202) \<or> c = 8232 \<or> c = 8233 \<or> c = 8239 \<or> c = 8287
     \<or> c = 12288"

definition py_strip :: "pystr \<Rightarrow> pystr" where
  "py_strip s = rev (dropWhile py_isspace (rev (dropWhile py_isspace s)))"

text \<open>\<open>round(x, 3)\<close>: to the nearest multiple of \<open>0.001\<close>, ties to the even one.\<close>

definition py_round3 :: "real \<Rightarrow> real" where
  "py_round3 x =
     (let y = x * 1000; f = \<lfloor>y\<rfloor>; d = y - of_int f
      in of_int (if d < 1 / 2 then f
                 else if 1 / 2 < d then f + 1
                 else if even f then f else f + 1) / 1000)"

text \<open>\<open>math.hypot\<close>.\<close>

definition py_hypot :: "real \<Rightarrow> real \<Rightarrow> real" where
  "py_hypot x y = sqrt (x * x + y * y)"


section \<open>The circumplex model (app/services/emotion\_model.py)\<close>

record EmotionState =
  valence :: real
  arousal :: real
  label :: pystr
  intensity :: pystr

text \<open>The canonical table; a Python dict iterates in insertion order.\<close>

definition EMOTION_MAP :: "(pystr \<times> real \<times> real) list" where
  "EMOTION_MAP = [
    (str ''excited'', 0.8, 0.9),
    (str ''happy'', 0.7, 0.5),
    (str ''loving'', 0.8, 0.4),
    (str ''neutral'', 0.0, 0.2),
    (str ''thinking'', 0.1, 0.4),
    (str ''surprised'', 0.3, 0.85),
    (str ''jealous'', -0.5, 0.75),
    (str ''shy'', 0.3, 0.35),
    (str ''anxious'', -0.4, 0.8),
    (str ''sad'', -0.7, 0.2),
    (str ''angry'', -0.8, 0.9),
    (str ''disappointed'', -0.6, 0.35),
    (str ''frustrated'', -0.5, 0.65),
    (str ''proud'', 0.7, 0.65),
    (str ''grateful'', 0.65, 0.25),
    (str ''bored'', -0.3, 0.1),
    (str ''curious'', 0.3, 0.55),
    (str ''embarrassed'', -0.3, 0.55),
    (str ''playful'', 0.55, 0.75),
    (str ''lonely'', -0.55, 0.15),
    (str ''confused'', -0.15, 0.45)
  ]"

definition EMOTION_LABELS :: "pystr list" where
  "EMOTION_LABELS = map fst EMOTION_MAP"

definition INTENSITY_LEVELS :: "pystr list" where
  "INTENSITY_LEVELS = [str ''low'', str ''mid'', str ''high'']"

definition clamp :: "real \<Rightarrow> real \<Rightarrow> real \<Rightarrow> real" where
  "clamp val lo hi = max lo (min hi val)"

definition intensity_from_arousal :: "real \<Rightarrow> pystr" where
  "intensity_from_arousal a =
     (if a < 0.35 then str ''low'' else if a \<le> 0.65 then str ''mid'' else str ''high'')"

text \<open>
  One iteration of the loop of \<open>_nearest_label\<close>. The accumulator is
  \<open>(best_label, best_dist)\<close>; \<open>None\<close> stands for the initial \<open>float("inf")\<close>.
\<close>

definition nearest_step ::
  "real \<Rightarrow> real \<Rightarrow> pystr \<times> real option \<Rightarrow> pystr \<times> real \<times> real \<Rightarrow> pystr \<times> real option"
where
  "nearest_step val aro acc entry =
     (case acc of (best_label, best_dist) \<Rightarrow>
      case entry of (lbl, v, a) \<Rightarrow>
        let dist = py_hypot (val - v) (aro - a)
        in if (case best_dist of None \<Rightarrow> True | Some b \<Rightarrow> dist < b)
           then (lbl, Some dist) else (best_label, best_dist))"

definition nearest_in :: "(pystr \<times> real \<times> real) list \<Rightarrow> real \<Rightarrow> real \<Rightarrow> pystr" where
  "nearest_in table val aro = fst (foldl (nearest_step val aro) (str ''neutral'', None) table)"

definition nearest_label :: "real \<Rightarrow> real \<Rightarrow> pystr" where
  "nearest_label val aro = nearest_in EMOTION_MAP val aro"

text \<open>
  \<open>_apply_mbti_modifiers\<close>. \<open>not mbti\<close> holds for \<open>None\<close> and for the empty string;
  the indices 0 and 2 are in range because the string has at least four characters.
\<close>

definition apply_mbti_modifiers :: "real \<Rightarrow> real \<Rightarrow> pystr option \<Rightarrow> real \<times> real" where
  "apply_mbti_modifiers val aro mbti =
     (case mbti of
        None \<Rightarrow> (val, aro)
      | Some m \<Rightarrow>
          if m = [] \<or> length m < 4 then (val, aro)
          else
            let mbti_upper = py_upper m;
                aro1 = (if mbti_upper ! 0 = of_char CHR ''E'' then aro * 1.15
                        else if mbti_upper ! 0 = of_char CHR ''I'' then aro * 0.85
                        else aro);
                val1 = (if mbti_upper ! 2 = of_char CHR ''F'' then val * 1.20
                        else if mbti_upper ! 2 = of_char CHR ''T'' then val * 0.80
                        else val)
            in (clamp val1 (-1) 1, clamp aro1 0 1))"

text \<open>\<open>EMOTION_MAP.get(label, EMOTION_MAP["neutral"])\<close>.\<close>

definition emotion_map_get :: "pystr \<Rightarrow> real \<times> real" where
  "emotion_map_get lbl =
     (case map_of EMOTION_MAP lbl of
        Some p \<Rightarrow> p
      | None \<Rightarrow> the (map_of EMOTION_MAP (str ''neutral'')))"

definition label_to_circumplex :: "pystr \<Rightarrow> pystr option \<Rightarrow> EmotionState" where
  "label_to_circumplex lbl mbti =
     (case emotion_map_get lbl of (v0, a0) \<Rightarrow>
      case apply_mbti_modifiers v0 a0 mbti of (val, aro) \<Rightarrow>
        \<lparr> valence = py_round3 val,
          arousal = py_round3 aro,
          label = nearest_label val aro,
          intensity = intensity_from_arousal aro \<rparr>)"

definition inertia_weights :: "EmotionState \<Rightarrow> int \<Rightarrow> real \<times> real" where
  "inertia_weights prev familiarity_level =
     (if label prev = str ''neutral'' then (0.3, 0.7)
      else if familiarity_level \<ge> 8 then (0.35, 0.65)
      else if familiarity_level \<ge> 5 then (0.50, 0.50)
      else (0.65, 0.35))"

definition apply_inertia :: "EmotionState \<Rightarrow> EmotionState \<Rightarrow> int \<Rightarrow> EmotionState" where
  "apply_inertia prev new familiarity_level =
     (case inertia_weights prev familiarity_level of (w_prev, w_new) \<Rightarrow>
        let val = clamp (valence prev * w_prev + valence new * w_new) (-1) 1;
            aro = clamp (arousal prev * w_prev + arousal new * w_new) 0 1
        in \<lparr> valence = py_round3 val,
             arousal = py_round3 aro,
             label = nearest_label val aro,
             intensity = intensity_from_arousal aro \<rparr>)"


section \<open>The heuristic classifier (app/services/emotion.py)\<close>

text \<open>
  The keyword lexicon, in declaration order. Keywords outside ASCII are given by their
  code points.
\<close>

definition EMOTION_KEYWORDS :: "(pystr \<times> pystr list) list" where
  "EMOTION_KEYWORDS = [
    (str ''happy'', [
      str ''haha'', str ''wonderful'', str ''great'', str ''glad'', str ''awesome'',
      str ''amazing'', str ''yay'', str ''fantastic'', str ''brilliant'',
      str ''delighted'', str ''fun'', str ''joy'', str ''happy'', str ''laugh'',
      str ''smile'', str ''cool'', str ''sweet'', str ''nice'', [24320, 24515],
      [39640, 20852], [21704, 21704], [19981, 38169], [26834], [22826, 22909, 20102],
      [22909, 24320, 24515]]),
    (str ''excited'', [
      str ''excited'', str ''wow'', str ''incredible'', str ''omg'',
      str ''can't wait'', str ''thrilled'', str ''pumped'', str ''stoked'',
      str ''unbelievable'', str ''insane'', str ''let's go'', [22826, 26834, 20102],
      [28608, 21160], [20852, 22859], [22825, 21834], [21385, 23475], [38663, 24778]]),
    (str ''sad'', [
      str ''sorry'', str ''unfortunately'', str ''sad'', str ''miss'', str ''lost'',
      str ''difficult'', str ''tough'', str ''heartbreaking'', str ''regret'',
      str ''painful'', str ''grief'', str ''cry'', str ''tears'', [38590, 36807],
      [20260, 24515], [21487, 24796], [36951, 25022], [24819, 24565], [24515, 30140],
      [22996, 23624]]),
    (str ''angry'', [
      str ''unfair'', str ''annoyed'', str ''upset'', str ''furious'', str ''angry'',
      str ''outrageous'', str ''ridiculous'', str ''unacceptable'', str ''terrible'',
      str ''hate'', [29983, 27668], [28902], [35752, 21388], [27668, 27515],
      [21463, 19981, 20102], [36807, 20998]]),
    (str ''anxious'', [
      str ''worried'', str ''nervous'', str ''anxious'', str ''scared'',
      str ''afraid'', str ''stress'', str ''uneasy'', str ''concerned'', str ''panic'',
      str ''overwhelmed'', str ''tense'', [25285, 24515], [32039, 24352],
      [28966, 34385], [23475, 24597], [19981, 23433], [21387, 21147]]),
    (str ''loving'', [
      str ''love'', str ''adore'', str ''cherish'', str ''care about'',
      str ''precious'', str ''sweetheart'', str ''darling'', str ''dear'',
      str ''miss you'', str ''warm'', str ''affection'', str ''tender'', str ''hug'',
      [21916, 27426, 20320], [29233, 20320], [24819, 20320], [22312, 20046, 20320],
      [24515, 30140, 20320], [20146, 29233, 30340], [23453, 36125]]),
    (str ''surprised'', [
      str ''really'', str ''no way'', str ''what'', str ''seriously'',
      str ''unexpected'', str ''didn't expect'', str ''oh my'', str ''shocking'',
      str ''whoa'', [30495, 30340, 21527], [19981, 20250, 21543],
      [27809, 24819, 21040], [23621, 28982], [31455, 28982], [21523, 21040]]),
    (str ''thinking'', [
      str ''hmm'', str ''let me think'', str ''consider'', str ''interesting'',
      str ''perhaps'', str ''maybe'', str ''could be'', str ''wonder'',
      str ''actually'', str ''on the other hand'', [21999], [36825, 20010, 22043],
      [35753, 25105, 24819, 24819], [26377, 24847, 24605], [20063, 35768],
      [22909, 20687]]),
    (str ''jealous'', [
      str ''jealous'', str ''girlfriend'', str ''boyfriend'', str ''dating someone'',
      str ''seeing someone'', str ''other girl'', str ''other guy'',
      str ''who is she'', str ''who is he'', str ''don't like her'',
      str ''don't like him'', str ''mine'', str ''belong to me'', str ''flirting'',
      str ''cheating'', str ''why her'', str ''why him'', [21507, 37259],
      [22899, 26379, 21451], [30007, 26379, 21451], [20854, 20182, 22899, 29983],
      [20854, 20182, 30007, 29983], [22905, 26159, 35841], [20182, 26159, 35841],
      [20320, 26159, 25105, 30340], [19981, 35768], [21035, 36319, 22905],
      [21035, 36319, 20182], [37259, 24847], [23241, 22930]]),
    (str ''shy'', [
      str ''blush'', str ''shy'', str ''awkward'', str ''flattered'', str ''stop it'',
      str ''don't say that'', str ''you're making me'', str ''too much'',
      str ''oh stop'', str ''you're sweet'', [23475, 32670],
      [19981, 22909, 24847, 24605], [33080, 32418], [21035, 35828, 20102],
      [35752, 21388, 21862], [20154, 23478], [21710, 21568], [32670, 27515, 20102],
      [20320, 30495, 20250, 35828]]),
    (str ''disappointed'', [
      str ''disappointed'', str ''let down'', str ''expected more'',
      str ''not what i hoped'', str ''underwhelming'', str ''letdown'',
      str ''hoped for'', [22833, 26395], [19981, 28385, 24847],
      [19981, 22914, 39044, 26399]]),
    (str ''frustrated'', [
      str ''frustrating'', str ''frustrated'', str ''ugh'', str ''so annoying'',
      str ''stuck'', str ''can't figure out'', str ''nothing works'', str ''give up'',
      [28902, 27515, 20102], [25630, 19981, 23450], [22909, 28902]]),
    (str ''proud'', [
      str ''proud'', str ''nailed it'', str ''crushed it'', str ''achievement'',
      str ''accomplished'', str ''did it'', str ''i'm so good'',
      str ''look what i did'', [39556, 20658], [33258, 35946], [21385, 23475, 20102]]),
    (str ''grateful'', [
      str ''grateful'', str ''thankful'', str ''appreciate'', str ''thanks so much'',
      str ''means a lot'', str ''blessed'', str ''so kind'', [24863, 24681],
      [24863, 35874], [35874, 35874, 20320], [22826, 24863, 35874]]),
    (str ''bored'', [
      str ''bored'', str ''boring'', str ''dull'', str ''nothing to do'', str ''meh'',
      str ''whatever'', str ''yawn'', str ''so tired of'', [26080, 32842],
      [27809, 24847, 24605], [22909, 38391]]),
    (str ''curious'', [
      str ''curious'', str ''tell me more'', str ''how does'', str ''why does'',
      str ''i wonder'', str ''what if'', str ''fascinating'', [22909, 22855],
      [24819, 30693, 36947], [24590, 20040, 22238, 20107]]),
    (str ''embarrassed'', [
      str ''embarrassed'', str ''embarrassing'', str ''cringe'', str ''so awkward'',
      str ''want to disappear'', str ''mortified'', str ''humiliating'',
      [23604, 23596], [20002, 20154], [22909, 20002, 33080]]),
    (str ''playful'', [
      str ''hehe'', str ''tease'', str ''playful'', str ''just kidding'',
      str ''gotcha'', str ''bet you can't'', str ''catch me'', str ''wanna play'',
      [22075, 22075], [36887, 20320, 30340], [26469, 29609]]),
    (str ''lonely'', [
      str ''lonely'', str ''alone'', str ''no one'', str ''nobody'', str ''by myself'',
      str ''miss someone'', str ''isolated'', str ''all alone'', [23396, 29420],
      [23490, 23518], [19968, 20010, 20154]]),
    (str ''confused'', [
      str ''confused'', str ''don't understand'', str ''makes no sense'', str ''huh'',
      str ''lost me'', str ''wait what'', str ''i'm so confused'', [22256, 24785],
      [25630, 19981, 25026], [20160, 20040, 24847, 24605]])
  ]"

definition RELATIONSHIP_EMOTION_BIAS :: "(pystr \<times> pystr) list" where
  "RELATIONSHIP_EMOTION_BIAS = [
    (str ''Romantic Partner'', str ''loving''),
    (str ''Ex-Partner'', str ''sad''),
    (str ''Best Friend'', str ''happy''),
    (str ''Friend'', str ''happy''),
    (str ''Mentor'', str ''thinking''),
    (str ''Companion'', str ''happy''),
    (str ''Confidant'', str ''thinking''),
    (str ''Rival'', str ''excited''),
    (str ''Frenemy'', str ''surprised''),
    (str ''Nemesis'', str ''angry''),
    (str ''Critic'', str ''thinking''),
    (str ''Stranger'', str ''neutral''),
    (str ''Acquaintance'', str ''neutral''),
    (str ''Colleague'', str ''neutral''),
    (str ''Study Buddy'', str ''thinking''),
    (str ''Advisor'', str ''thinking'')
  ]"

text \<open>The inner loop: one point for each keyword of the label that occurs in the text.\<close>

definition keyword_score :: "pystr \<Rightarrow> pystr list \<Rightarrow> nat" where
  "keyword_score text_lower keywords =
     foldl (\<lambda>s kw. if py_in kw text_lower then s + 1 else s) 0 keywords"

definition keyword_scores :: "pystr \<Rightarrow> (pystr \<times> nat) list" where
  "keyword_scores text_lower =
     map (\<lambda>(emotion, keywords). (emotion, keyword_score text_lower keywords)) EMOTION_KEYWORDS"

text \<open>
  \<open>max(scores, key=scores.get)\<close>: the first key, in insertion order, whose score is
  the greatest. Python raises on an empty dict; \<open>scores\<close> has one entry for each of the
  twenty keys of the lexicon, so the first equation is never reached from the classifier.
\<close>

fun max_key :: "(pystr \<times> nat) list \<Rightarrow> pystr \<times> nat" where
  "max_key [] = ([], 0)"
| "max_key (x # xs) = foldl (\<lambda>(bk, bv) (k, v). if bv < v then (k, v) else (bk, bv)) x xs"

text \<open>
  \<open>classify_emotion_heuristic\<close>. Python's \<open>str.lower\<close> follows the Unicode case
  mapping, which is no part of the source, so the classifier takes it as the parameter
  \<open>lower\<close>. The length test is on the text as given, not on its lower-cased form.
\<close>

definition classify_emotion_heuristic_with ::
  "(pystr \<Rightarrow> pystr) \<Rightarrow> pystr \<Rightarrow> pystr option \<Rightarrow> int \<Rightarrow> pystr"
where
  "classify_emotion_heuristic_with lower txt relationship_type familiarity_level =
     (let text_lower = lower txt;
          scores = keyword_scores text_lower
      in case max_key scores of (best, best_score) \<Rightarrow>
         if best_score > 0 then best
         else
           (case relationship_type of
              None \<Rightarrow> str ''neutral''
            | Some r \<Rightarrow>
                (case (if r = [] then None else map_of RELATIONSHIP_EMOTION_BIAS r) of
                   None \<Rightarrow> str ''neutral''
                 | Some bias \<Rightarrow>
                     if familiarity_level \<ge> 7 then bias
                     else if familiarity_level \<ge> 4 then
                       (if length txt > 20 then bias else str ''neutral'')
                     else str ''neutral'')))"

text \<open>
  The classifier with \<open>py_lower\<close>, which is \<open>str.lower\<close> on every text whose
  characters are ASCII.
\<close>

definition classify_emotion_heuristic :: "pystr \<Rightarrow> pystr option \<Rightarrow> int \<Rightarrow> pystr" where
  "classify_emotion_heuristic txt relationship_type familiarity_level =
     classify_emotion_heuristic_with py_lower txt relationship_type familiarity_level"

text \<open>
  \<open>classify_to_circumplex\<close>. The call \<open>apply_inertia(prev_state, new_state)\<close> passes no
  familiarity level, so \<open>apply_inertia\<close> runs with its default, 5.
\<close>

definition classify_to_circumplex ::
  "pystr \<Rightarrow> pystr option \<Rightarrow> int \<Rightarrow> pystr option \<Rightarrow> EmotionState option \<Rightarrow> EmotionState"
where
  "classify_to_circumplex txt relationship_type familiarity_level mbti prev_state =
     (let lbl = classify_emotion_heuristic txt relationship_type familiarity_level;
          new_state = label_to_circumplex lbl mbti
      in case prev_state of
           Some prev \<Rightarrow> apply_inertia prev new_state 5
         | None \<Rightarrow> new_state)"


section \<open>The streaming adapter (app/services/gemini\_live.py)\<close>

text \<open>
  \<open>GeminiLiveSession.reconnect\<close>. The only call of the loop body that can raise is
  \<open>connect()\<close> (\<open>close()\<close> swallows its own exceptions), so the environment is the
  function \<open>connect_ok\<close>: whether the \<open>connect()\<close> of a given attempt succeeds. The
  result is the list of adapter calls made, in order, and the value returned.
\<close>

datatype adapter_action = Close | Sleep real | Connect

fun reconnect_attempts :: "(nat \<Rightarrow> bool) \<Rightarrow> nat list \<Rightarrow> adapter_action list \<times> bool" where
  "reconnect_attempts connect_ok [] = ([], False)"
| "reconnect_attempts connect_ok (attempt # rest) =
     (let calls = [Close] @ (if attempt > 1 then [Sleep (0.5 * real attempt)] else []) @ [Connect]
      in if connect_ok attempt then (calls, True)
         else (case reconnect_attempts connect_ok rest of
                 (later, result) \<Rightarrow> (calls @ later, result)))"

definition reconnect :: "nat \<Rightarrow> (nat \<Rightarrow> bool) \<Rightarrow> adapter_action list \<times> bool" where
  "reconnect max_retries connect_ok = reconnect_attempts connect_ok [1 ..< max_retries + 1]"


section \<open>The session orchestrator (app/api/ws\_handler.py)\<close>

subsection \<open>Session state\<close>

record TranscriptEntry =
  role :: pystr
  entry_text :: pystr
  entry_emotion :: "pystr option"

text \<open>
  The fields of \<open>SessionState\<close> that the forwarding routines read or write.
  \<open>burst_count\<close> starts at 0 and is only incremented or reset to 0, so it is a natural.
\<close>

record SessionState =
  current_emotion :: EmotionState
  transcript_buffer :: "TranscriptEntry list"
  running :: bool
  last_activity_time :: real
  relationship_type :: "pystr option"
  familiarity_level :: int
  mbti :: "pystr option"
  user_interacted_since_last_emotion :: bool
  burst_count :: nat
  burst_cooldown_until :: real

definition SessionState_init :: SessionState where
  "SessionState_init =
     \<lparr> current_emotion =
         \<lparr>valence = 0.0, arousal = 0.2, label = str ''neutral'', intensity = str ''low''\<rparr>,
       transcript_buffer = [],
       running = True,
       last_activity_time = 0.0,
       relationship_type = None,
       familiarity_level = 5,
       mbti = None,
       user_interacted_since_last_emotion = True,
       burst_count = 0,
       burst_cooldown_until = 0.0 \<rparr>"

definition BURST_AROUSAL_THRESHOLD :: real where
  "BURST_AROUSAL_THRESHOLD = 0.7"

definition BURST_MAX_FOLLOW_UPS :: nat where
  "BURST_MAX_FOLLOW_UPS = 3"

definition BURST_COOLDOWN_SECONDS :: real where
  "BURST_COOLDOWN_SECONDS = 30.0"

definition BURST_FOLLOW_UP_PROMPTS :: "pystr list" where
  "BURST_FOLLOW_UP_PROMPTS = [
    [20320, 36824, 26377, 26356, 22810, 24819, 35828, 30340, 65292, 32487, 32493,
     34920, 36798, 20320, 30340, 24863, 21463, 65292, 33258, 28982, 22320, 34917,
     20805, 19968, 20004, 21477, 12290],
    [20320, 35273, 24471, 24847, 29369, 26410, 23613, 65292, 20877, 35828, 19968,
     28857, 20320, 30340, 24819, 27861, 12290],
    [20320, 36824, 24819, 20877, 35828, 28857, 20160, 20040, 65292, 31616, 30701,
     22320, 34917, 20805, 12290]
  ]"

text \<open>Default starting emotions: (valence, arousal, label, intensity) per relationship type.\<close>

definition RELATIONSHIP_DEFAULT_EMOTIONS :: "(pystr \<times> real \<times> real \<times> pystr \<times> pystr) list" where
  "RELATIONSHIP_DEFAULT_EMOTIONS = [
    (str ''Romantic Partner'', 0.6, 0.5, str ''loving'', str ''medium''),
    (str ''Best Friend'', 0.5, 0.4, str ''happy'', str ''medium''),
    (str ''Friend'', 0.3, 0.3, str ''happy'', str ''low''),
    (str ''Companion'', 0.3, 0.3, str ''happy'', str ''low''),
    (str ''Mentor'', 0.2, 0.3, str ''thinking'', str ''low''),
    (str ''Confidant'', 0.2, 0.3, str ''thinking'', str ''low''),
    (str ''Rival'', 0.1, 0.5, str ''excited'', str ''medium''),
    (str ''Frenemy'', 0.0, 0.4, str ''surprised'', str ''low''),
    (str ''Nemesis'', -0.2, 0.5, str ''angry'', str ''low''),
    (str ''Critic'', 0.0, 0.3, str ''thinking'', str ''low''),
    (str ''Ex-Partner'', -0.3, 0.4, str ''sad'', str ''low''),
    (str ''Stranger'', 0.0, 0.2, str ''neutral'', str ''low''),
    (str ''Acquaintance'', 0.1, 0.2, str ''neutral'', str ''low''),
    (str ''Colleague'', 0.1, 0.2, str ''neutral'', str ''low''),
    (str ''Study Buddy'', 0.2, 0.3, str ''thinking'', str ''low''),
    (str ''Advisor'', 0.2, 0.3, str ''thinking'', str ''low'')
  ]"

subsection \<open>Seeding the emotion at session start\<close>

text \<open>
  The row that \<open>get_last_ai_emotion\<close> returns; every column is nullable. The seeding
  code runs when a character is selected: the last persisted emotion if there is one,
  else the relationship default, else the state keeps the value of its initialiser.
  \<open>x or d\<close> yields \<open>d\<close> when \<open>x\<close> is \<open>None\<close>, zero or the empty string.
\<close>

record StoredEmotion =
  db_emotion :: "pystr option"
  db_valence :: "real option"
  db_arousal :: "real option"
  db_intensity :: "pystr option"

definition seed_emotion :: "StoredEmotion option \<Rightarrow> pystr option \<Rightarrow> EmotionState" where
  "seed_emotion last_ai rel =
     (case (case last_ai of
              None \<Rightarrow> None
            | Some row \<Rightarrow>
                (case db_emotion row of
                   None \<Rightarrow> None
                 | Some e \<Rightarrow> if e = [] then None else Some (row, e))) of
        Some (row, e) \<Rightarrow>
          \<lparr> valence = (case db_valence row of None \<Rightarrow> 0.0 | Some v \<Rightarrow> if v = 0 then 0.0 else v),
            arousal = (case db_arousal row of None \<Rightarrow> 0.2 | Some a \<Rightarrow> if a = 0 then 0.2 else a),
            label = e,
            intensity = (case db_intensity row of
                           None \<Rightarrow> str ''low''
                         | Some i \<Rightarrow> if i = [] then str ''low'' else i) \<rparr>
      | None \<Rightarrow>
          (case (case rel of
                   None \<Rightarrow> None
                 | Some r \<Rightarrow> if r = [] then None else map_of RELATIONSHIP_DEFAULT_EMOTIONS r) of
             Some (v, a, lbl, inten) \<Rightarrow>
               \<lparr>valence = v, arousal = a, label = lbl, intensity = inten\<rparr>
           | None \<Rightarrow> current_emotion SessionState_init))"

subsection \<open>Frames, effects and upstream events\<close>

text \<open>
  The frames sent to the client with \<open>ws.send_json(server_message(type, payload))\<close>.
  Audio and text frames carry the payload and the emotion label, valence, arousal and
  intensity; an error frame carries its code and its message. Audio bytes are kept as
  they are (the base64 transport encoding is left out).
\<close>

datatype server_frame =
    InterruptedFrame
  | TurnCompleteFrame
  | AudioFrame "nat list" pystr real real pystr
  | TextFrame pystr pystr real real pystr
  | ErrorFrame pystr pystr

text \<open>
  What a handler does to the outside, in order: a frame to the client, a call of the
  adapter made by \<open>reconnect\<close>, a send to the adapter, an injected context message, an
  \<open>asyncio.sleep\<close>, or a background \<open>_proactive_search\<close> task.
\<close>

datatype effect =
    WsSend server_frame
  | Adapter adapter_action
  | SendAudio "nat list"
  | SendText pystr
  | InjectContext pystr
  | AsyncSleep real
  | SpawnProactiveSearch pystr

text \<open>How the enclosing loop goes on after a handler.\<close>

datatype flow = Continue | Break | Return

record InlineData =
  mime_type :: "pystr option"
  inline_bytes :: "nat list"

text \<open>
  An upstream response. A part of a model turn is its \<open>inline_data\<close>, if any; a
  transcription is its \<open>text\<close>, \<open>None\<close> when the object or its text is missing.
\<close>

record ServerContent =
  interrupted :: bool
  turn_complete :: bool
  model_turn :: "InlineData option list option"
  output_transcription :: "pystr option"
  input_transcription :: "pystr option"

record Response =
  go_away :: bool
  server_content :: "ServerContent option"

subsection \<open>Routine (b): upstream events to the client\<close>

definition forward_audio_parts :: "SessionState \<Rightarrow> InlineData option list \<Rightarrow> effect list" where
  "forward_audio_parts st parts =
     concat (map (\<lambda>part.
       case part of
         None \<Rightarrow> []
       | Some d \<Rightarrow>
           (case mime_type d of
              None \<Rightarrow> []
            | Some m \<Rightarrow>
                if m \<noteq> [] \<and> py_in (str ''audio'') m then
                  (let emo = current_emotion st
                   in [WsSend (AudioFrame (inline_bytes d) (label emo) (valence emo)
                                 (arousal emo) (intensity emo))])
                else [])) parts)"

text \<open>The block for an output transcription whose text is not empty.\<close>

definition on_output_transcription :: "SessionState \<Rightarrow> pystr \<Rightarrow> SessionState \<times> effect list" where
  "on_output_transcription st txt =
     (case (if user_interacted_since_last_emotion st then
              (let emo = classify_to_circumplex txt (relationship_type st)
                           (familiarity_level st) (mbti st) (Some (current_emotion st))
               in (st\<lparr>current_emotion := emo, user_interacted_since_last_emotion := False\<rparr>, emo))
            else (st, current_emotion st)) of
        (st1, emo) \<Rightarrow>
          if py_strip txt \<noteq> [] then
            (st1\<lparr>transcript_buffer := transcript_buffer st1 @
                 [\<lparr>role = str ''model'', entry_text = txt, entry_emotion = Some (label emo)\<rparr>]\<rparr>,
             [WsSend (TextFrame txt (label emo) (valence emo) (arousal emo) (intensity emo))])
          else (st1, []))"

text \<open>The block for an input transcription whose text is not empty.\<close>

definition on_input_transcription :: "SessionState \<Rightarrow> pystr \<Rightarrow> SessionState \<times> effect list" where
  "on_input_transcription st user_text =
     (st\<lparr>transcript_buffer := transcript_buffer st @
           [\<lparr>role = str ''user'', entry_text = user_text, entry_emotion = None\<rparr>],
         user_interacted_since_last_emotion := True\<rparr>,
      [SpawnProactiveSearch user_text])"

text \<open>
  The body of \<open>async for response in receive_responses()\<close>, for one response;
  \<open>now\<close> is the value of \<open>time.time()\<close>.
\<close>

definition on_response :: "SessionState \<Rightarrow> real \<Rightarrow> Response \<Rightarrow> flow \<times> SessionState \<times> effect list" where
  "on_response st now resp =
     (if \<not> running st then (Return, st, [])
      else if go_away resp then (Break, st, [])
      else case server_content resp of
        None \<Rightarrow> (Continue, st, [])
      | Some sc \<Rightarrow>
          if interrupted sc then (Continue, st, [WsSend InterruptedFrame])
          else if turn_complete sc then
            (Continue, st\<lparr>last_activity_time := now\<rparr>, [WsSend TurnCompleteFrame])
          else
            (let audio = (case model_turn sc of
                            None \<Rightarrow> []
                          | Some parts \<Rightarrow> forward_audio_parts st parts);
                 (st1, out1) = (case output_transcription sc of
                                  None \<Rightarrow> (st, [])
                                | Some txt \<Rightarrow>
                                    if txt = [] then (st, [])
                                    else on_output_transcription st txt);
                 (st2, out2) = (case input_transcription sc of
                                  None \<Rightarrow> (st1, [])
                                | Some user_text \<Rightarrow>
                                    if user_text = [] then (st1, [])
                                    else on_input_transcription st1 user_text)
             in (Continue, st2, audio @ out1 @ out2)))"

text \<open>The context replayed after a reconnect: the last 20 entries, 150 characters each.\<close>

fun py_join :: "pystr \<Rightarrow> pystr list \<Rightarrow> pystr" where
  "py_join sep [] = []"
| "py_join sep [x] = x"
| "py_join sep (x # y # ys) = x @ sep @ py_join sep (y # ys)"

definition context_line :: "TranscriptEntry \<Rightarrow> pystr" where
  "context_line entry =
     (if role entry = str ''user'' then [29992, 25143] else [20320])
       @ str '': '' @ take 150 (entry_text entry)"

definition context_message :: "TranscriptEntry list \<Rightarrow> pystr" where
  "context_message buffer =
     (let recent = drop (length buffer - 20) buffer
      in [20043, 21069, 30340, 23545, 35805, 35760, 24405, 58, 10]
           @ py_join [10] (map context_line recent)
           @ [10, 10, 32487, 32493, 33258, 28982, 22320, 32842, 22825, 65292, 31561, 29992,
              25143, 35828, 35805, 12290])"

text \<open>
  The emotional burst rule. \<open>running_after\<close> is the value of \<open>state.running\<close> read
  after the 0.8 s sleep.
\<close>

definition burst_due :: "SessionState \<Rightarrow> real \<Rightarrow> bool" where
  "burst_due st now \<longleftrightarrow>
     arousal (current_emotion st) \<ge> BURST_AROUSAL_THRESHOLD
     \<and> burst_count st < BURST_MAX_FOLLOW_UPS
     \<and> now \<ge> burst_cooldown_until st"

definition burst_rule :: "SessionState \<Rightarrow> real \<Rightarrow> bool \<Rightarrow> SessionState \<times> effect list" where
  "burst_rule st now running_after =
     (if burst_due st now then
        (let prompt = BURST_FOLLOW_UP_PROMPTS ! (burst_count st mod length BURST_FOLLOW_UP_PROMPTS)
         in (st\<lparr>burst_count := burst_count st + 1\<rparr>,
             [AsyncSleep 0.8] @ (if running_after then [SendText prompt] else [])))
      else if burst_count st > 0 then
        (st\<lparr>burst_cooldown_until := now + BURST_COOLDOWN_SECONDS, burst_count := 0\<rparr>, [])
      else (st, []))"

text \<open>
  The code after the \<open>async for\<close>: the upstream stream has ended (a turn boundary).
  \<open>connect_ok\<close> is the environment of \<open>reconnect\<close>.
\<close>

definition turn_boundary ::
  "SessionState \<Rightarrow> (nat \<Rightarrow> bool) \<Rightarrow> real \<Rightarrow> bool \<Rightarrow> flow \<times> SessionState \<times> effect list"
where
  "turn_boundary st connect_ok now running_after =
     (if \<not> running st then (Return, st, [])
      else case reconnect 3 connect_ok of
        (calls, ok) \<Rightarrow>
          if \<not> ok then
            (Return, st,
             map Adapter calls @
             [WsSend (ErrorFrame (str ''GEMINI_DISCONNECTED'') (str ''Lost connection to AI''))])
          else
            (let inject = (if transcript_buffer st \<noteq> []
                           then [InjectContext (context_message (transcript_buffer st))]
                           else [])
             in case burst_rule st now running_after of
                  (st1, out) \<Rightarrow> (Continue, st1, map Adapter calls @ inject @ out)))"

text \<open>The handler \<open>except Exception\<close> of the loop of routine (b).\<close>

definition on_loop_exception ::
  "SessionState \<Rightarrow> (nat \<Rightarrow> bool) \<Rightarrow> flow \<times> SessionState \<times> effect list"
where
  "on_loop_exception st connect_ok =
     (if \<not> running st then (Return, st, [])
      else case reconnect 3 connect_ok of
        (calls, ok) \<Rightarrow>
          (if ok then Continue else Return, st, AsyncSleep 1 # map Adapter calls))"

subsection \<open>Routine (a): client frames to the adapter\<close>

datatype client_msg =
    AudioMsg "nat list"
  | TextMsg pystr
  | ControlMsg "pystr option"
  | OtherMsg

text \<open>
  The retry loop around a send, \<open>for attempt in range(max_retries)\<close> with
  \<open>max_retries = 3\<close>. \<open>send_ok attempt\<close> says whether the send of that attempt
  succeeds, \<open>connect_ok attempt\<close> is the environment of the \<open>reconnect()\<close> made after
  it failed. The boolean is False when the routine returns from inside the loop.
\<close>

fun send_with_retry ::
  "effect \<Rightarrow> (nat \<Rightarrow> bool) \<Rightarrow> (nat \<Rightarrow> nat \<Rightarrow> bool) \<Rightarrow> nat list \<Rightarrow> effect list \<times> bool"
where
  "send_with_retry send send_ok connect_ok [] = ([], True)"
| "send_with_retry send send_ok connect_ok (attempt # rest) =
     (if send_ok attempt then ([send], True)
      else if attempt < 3 - 1 then
        (case reconnect 3 (connect_ok attempt) of
           (calls, ok) \<Rightarrow>
             if \<not> ok then
               (send # map Adapter calls @
                  [WsSend (ErrorFrame (str ''GEMINI_DISCONNECTED'') (str ''Lost connection to AI''))],
                False)
             else
               (case send_with_retry send send_ok connect_ok rest of
                  (later, go_on) \<Rightarrow> (send # map Adapter calls @ [AsyncSleep 0.5] @ later, go_on)))
      else
        (case send_with_retry send send_ok connect_ok rest of
           (later, go_on) \<Rightarrow> (send # later, go_on)))"

text \<open>The body of the loop of \<open>_forward_client_to_gemini\<close>, for one client message.\<close>

definition on_client_message ::
  "SessionState \<Rightarrow> real \<Rightarrow> (nat \<Rightarrow> bool) \<Rightarrow> (nat \<Rightarrow> nat \<Rightarrow> bool) \<Rightarrow> client_msg
     \<Rightarrow> flow \<times> SessionState \<times> effect list"
where
  "on_client_message st now send_ok connect_ok msg =
     (case msg of
        AudioMsg audio_bytes \<Rightarrow>
          (case send_with_retry (SendAudio audio_bytes) send_ok connect_ok [0 ..< 3] of
             (out, go_on) \<Rightarrow>
               if \<not> go_on then (Return, st, out)
               else (Continue,
                     st\<lparr>last_activity_time := now,
                        user_interacted_since_last_emotion := True,
                        burst_count := 0\<rparr>,
                     out))
      | TextMsg txt \<Rightarrow>
          (let st1 = st\<lparr>transcript_buffer := transcript_buffer st @
                        [\<lparr>role = str ''user'', entry_text = txt, entry_emotion = None\<rparr>]\<rparr>
           in case send_with_retry (SendText txt) send_ok connect_ok [0 ..< 3] of
                (out, go_on) \<Rightarrow>
                  if \<not> go_on then (Return, st1, out)
                  else (Continue,
                        st1\<lparr>last_activity_time := now,
                            user_interacted_since_last_emotion := True,
                            burst_count := 0\<rparr>,
                        out @ [SpawnProactiveSearch txt]))
      | ControlMsg action \<Rightarrow>
          if action = Some (str ''end_session'') then (Return, st, []) else (Continue, st, [])
      | OtherMsg \<Rightarrow> (Continue, st, []))"


subsection \<open>Executions of the session\<close>

text \<open>
  An execution of the two forwarding routines, one handler at a time: an upstream
  response handled by routine (b), a turn boundary of routine (b), or a client message
  handled by routine (a), each with the clock value and the environment it meets.
  \<open>bursts\<close> counts the burst follow-ups sent to the adapter along an execution; a
  handler that returns ends its routine, and with it the count.
\<close>

datatype session_event =
    Upstream real Response
  | TurnBoundary "nat \<Rightarrow> bool" real bool
  | Client real "nat \<Rightarrow> bool" "nat \<Rightarrow> nat \<Rightarrow> bool" client_msg

definition text_sends :: "effect list \<Rightarrow> nat" where
  "text_sends out = length (filter (\<lambda>e. case e of SendText p \<Rightarrow> True | _ \<Rightarrow> False) out)"

fun bursts :: "SessionState \<Rightarrow> session_event list \<Rightarrow> nat" where
  "bursts st [] = 0"
| "bursts st (Upstream now resp # evs) =
     (case on_response st now resp of
        (fl, st1, out) \<Rightarrow> if fl = Return then 0 else bursts st1 evs)"
| "bursts st (TurnBoundary connect_ok now running_after # evs) =
     (case turn_boundary st connect_ok now running_after of
        (fl, st1, out) \<Rightarrow> text_sends out + (if fl = Return then 0 else bursts st1 evs))"
| "bursts st (Client now send_ok connect_ok msg # evs) =
     (case on_client_message st now send_ok connect_ok msg of
        (fl, st1, out) \<Rightarrow> if fl = Return then 0 else bursts st1 evs)"

fun boundary_times :: "session_event list \<Rightarrow> real list" where
  "boundary_times [] = []"
| "boundary_times (TurnBoundary connect_ok now running_after # evs) = now # boundary_times evs"
| "boundary_times (e # evs) = boundary_times evs"

fun is_client_event :: "session_event \<Rightarrow> bool" where
  "is_client_event (Client now send_ok connect_ok msg) = True"
| "is_client_event e = False"

text \<open>All turn boundaries of an execution lie within a window shorter than \<open>w\<close> seconds.\<close>

definition within_window :: "real \<Rightarrow> session_event list \<Rightarrow> bool" where
  "within_window w evs \<longleftrightarrow>
     list_all (\<lambda>t. list_all (\<lambda>t'. t' < t + w) (boundary_times evs)) (boundary_times evs)"


section \<open>Delayed proactive messages (app/api/message\_routes.py)\<close>

text \<open>
  \<open>_fire_proactive_task\<close> and \<open>_maybe_send_proactive\<close>. asyncio runs a task without
  interruption up to its next suspending \<open>await\<close>, and entering \<open>async with lock\<close> on
  a free lock does not suspend, so a task advances in these atomic steps:
  \<^item> from \<open>Created\<close>: the test \<open>lock.locked()\<close>; the task returns (\<open>Dropped\<close>) when the
    lock is held, else it takes the lock and sleeps (\<open>Sleeping\<close>);
  \<^item> from \<open>Sleeping\<close>: the sleep is over and the task is in the \<open>try\<close> block that
    generates and persists the message (\<open>Generating\<close>);
  \<^item> from \<open>Generating\<close>: the block is left, with the message persisted or not
    (\<open>persist_ok\<close>), and the lock is released (\<open>Finished\<close>).
  The world is the lock table \<open>_proactive_locks\<close>, the tasks created so far and the
  messages persisted; a schedule says which task takes the next step.
\<close>

type_synonym pair_key = "pystr \<times> pystr"

datatype task_pc = Created | Sleeping | Generating | Dropped | Finished

record proactive_task =
  task_key :: pair_key
  pc :: task_pc

record proactive_world =
  proactive_locks :: "pair_key \<Rightarrow> bool option"
  tasks :: "proactive_task list"
  persisted :: "pair_key list"

definition empty_world :: proactive_world where
  "empty_world = \<lparr>proactive_locks = (\<lambda>k. None), tasks = [], persisted = []\<rparr>"

definition fire_proactive_task ::
  "proactive_world \<Rightarrow> pystr \<Rightarrow> pystr \<Rightarrow> EmotionState \<Rightarrow> proactive_world"
where
  "fire_proactive_task w user_id character_id emotion =
     (if arousal emotion \<le> 0.65 then w
      else
        (let key = (character_id, user_id);
             locks1 = (if proactive_locks w key = None
                       then (proactive_locks w)(key \<mapsto> False)
                       else proactive_locks w)
         in w\<lparr>proactive_locks := locks1,
              tasks := tasks w @ [\<lparr>task_key = key, pc = Created\<rparr>]\<rparr>))"

definition step_task :: "proactive_world \<Rightarrow> nat \<Rightarrow> bool \<Rightarrow> proactive_world" where
  "step_task w i persist_ok =
     (if i \<ge> length (tasks w) then w
      else
        (let t = tasks w ! i; key = task_key t
         in case pc t of
              Created \<Rightarrow>
                if proactive_locks w key = Some True
                then w\<lparr>tasks := (tasks w)[i := t\<lparr>pc := Dropped\<rparr>]\<rparr>
                else w\<lparr>proactive_locks := (proactive_locks w)(key \<mapsto> True),
                       tasks := (tasks w)[i := t\<lparr>pc := Sleeping\<rparr>]\<rparr>
            | Sleeping \<Rightarrow> w\<lparr>tasks := (tasks w)[i := t\<lparr>pc := Generating\<rparr>]\<rparr>
            | Generating \<Rightarrow>
                w\<lparr>proactive_locks := (proactive_locks w)(key \<mapsto> False),
                  tasks := (tasks w)[i := t\<lparr>pc := Finished\<rparr>],
                  persisted := persisted w @ (if persist_ok then [key] else [])\<rparr>
            | Dropped \<Rightarrow> w
            | Finished \<Rightarrow> w))"

fun run_schedule :: "proactive_world \<Rightarrow> (nat \<times> bool) list \<Rightarrow> proactive_world" where
  "run_schedule w [] = w"
| "run_schedule w ((i, persist_ok) # sched) = run_schedule (step_task w i persist_ok) sched"

text \<open>A task has performed the generate-and-persist execution once it entered the block.\<close>

definition executed :: "proactive_world \<Rightarrow> nat \<Rightarrow> bool" where
  "executed w i \<longleftrightarrow> pc (tasks w ! i) = Generating \<or> pc (tasks w ! i) = Finished"


text \<open>
  A task is in the region guarded by the lock from the moment it takes the lock until
  it releases it; \<open>holding\<close> also covers a task that has already left the region.
  \<open>lock_invariant\<close>: at most one task of a pair is in the region, and the lock of its
  pair is then held.
\<close>

definition in_region :: "proactive_world \<Rightarrow> nat \<Rightarrow> bool" where
  "in_region w i \<longleftrightarrow> pc (tasks w ! i) = Sleeping \<or> pc (tasks w ! i) = Generating"

definition holding :: "proactive_world \<Rightarrow> nat \<Rightarrow> bool" where
  "holding w i \<longleftrightarrow> pc (tasks w ! i) = Sleeping \<or> executed w i"

definition lock_invariant :: "proactive_world \<Rightarrow> bool" where
  "lock_invariant w \<longleftrightarrow>
     (\<forall>i < length (tasks w). \<forall>j < length (tasks w).
        in_region w i \<and> in_region w j \<and> task_key (tasks w ! i) = task_key (tasks w ! j)
          \<longrightarrow> i = j) \<and>
     (\<forall>i < length (tasks w).
        in_region w i \<longrightarrow> proactive_locks w (task_key (tasks w ! i)) = Some True)"

section \<open>Predicates of the properties\<close>

text \<open>
  No keyword of the lexicon occurs in the lower-cased text, for a lower-casing function
  \<open>lower\<close> and for \<open>py_lower\<close>.
\<close>

definition no_keyword_match_with :: "(pystr \<Rightarrow> pystr) \<Rightarrow> pystr \<Rightarrow> bool" where
  "no_keyword_match_with lower txt \<longleftrightarrow>
     list_all (\<lambda>(emotion, keywords). list_all (\<lambda>kw. \<not> py_in kw (lower txt)) keywords)
       EMOTION_KEYWORDS"

definition no_keyword_match :: "pystr \<Rightarrow> bool" where
  "no_keyword_match txt \<longleftrightarrow> no_keyword_match_with py_lower txt"

text \<open>
  The discretisation invariant of an emotion state: the label is the nearest label of
  its point and the intensity is the arousal class of its point.
\<close>

definition discretisation :: "EmotionState \<Rightarrow> bool" where
  "discretisation s \<longleftrightarrow>
     label s = nearest_label (valence s) (arousal s) \<and>
     intensity s = intensity_from_arousal (arousal s)"

text \<open>
  The label of a state is strictly nearest: its canonical point is closer to the
  state's point than the canonical point of every other label.
\<close>

definition strictly_nearest :: "EmotionState \<Rightarrow> bool" where
  "strictly_nearest s \<longleftrightarrow>
     (case map_of EMOTION_MAP (label s) of
        None \<Rightarrow> False
      | Some (v0, a0) \<Rightarrow>
          list_all (\<lambda>(lbl, v, a).
              lbl = label s \<or>
              py_hypot (valence s - v0) (arousal s - a0) < py_hypot (valence s - v) (arousal s - a))
            EMOTION_MAP)"


text \<open>
  The label of a state is nearest up to \<open>tol\<close>: no canonical point is closer to the
  state's point than the canonical point of its label by more than \<open>tol\<close>.
\<close>

definition nearest_within :: "real \<Rightarrow> EmotionState \<Rightarrow> bool" where
  "nearest_within tol s \<longleftrightarrow>
     (case map_of EMOTION_MAP (label s) of
        None \<Rightarrow> False
      | Some (v0, a0) \<Rightarrow>
          list_all (\<lambda>(lbl, v, a).
              py_hypot (valence s - v0) (arousal s - a0)
                \<le> py_hypot (valence s - v) (arousal s - a) + tol)
            EMOTION_MAP)"

text \<open>
  The intensity of a state fits its arousal: it is the arousal class, where at a class
  boundary (0.35 or 0.65) either of the two adjacent classes fits.
\<close>

definition intensity_fits :: "EmotionState \<Rightarrow> bool" where
  "intensity_fits s \<longleftrightarrow>
     (intensity s = str ''low'' \<and> arousal s \<le> 0.35) \<or>
     (intensity s = str ''mid'' \<and> 0.35 \<le> arousal s \<and> arousal s \<le> 0.65) \<or>
     (intensity s = str ''high'' \<and> 0.65 \<le> arousal s)"

text \<open>The frames that a list of effects sends to the client, in order.\<close>

fun ws_frames :: "effect list \<Rightarrow> server_frame list" where
  "ws_frames [] = []"
| "ws_frames (WsSend f # out) = f # ws_frames out"
| "ws_frames (e # out) = ws_frames out"

fun is_text_frame :: "server_frame \<Rightarrow> bool" where
  "is_text_frame (TextFrame txt emotion v a inten) = True"
| "is_text_frame f = False"

text \<open>
  The accumulator of the loop of \<open>_nearest_label\<close> holds a least distance over the
  entries \<open>S\<close> seen so far, with a label that attains it.
\<close>

definition least_so_far ::
  "real \<Rightarrow> real \<Rightarrow> (pystr \<times> real \<times> real) set \<Rightarrow> pystr \<times> real option \<Rightarrow> bool"
where
  "least_so_far x y S acc \<longleftrightarrow>
     (case acc of
        (lb, None) \<Rightarrow> S = {}
      | (lb, Some b) \<Rightarrow>
          (\<exists>v a. (lb, v, a) \<in> S \<and> py_hypot (x - v) (y - a) = b) \<and>
          (\<forall>(l, v, a) \<in> S. b \<le> py_hypot (x - v) (y - a)))"

text \<open>The ranges of a well-formed emotion state.\<close>

definition in_domain :: "EmotionState \<Rightarrow> bool" where
  "in_domain s \<longleftrightarrow>
     -1 \<le> valence s \<and> valence s \<le> 1 \<and> 0 \<le> arousal s \<and> arousal s \<le> 1 \<and>
     label s \<in> set EMOTION_LABELS \<and> intensity s \<in> set INTENSITY_LEVELS"


section \<open>Properties\<close>

subsection \<open>Rounding, clamping and the canonical table\<close>

lemma py_round3_cases:
  "py_round3 x = of_int \<lfloor>x * 1000\<rfloor> / 1000 \<or> py_round3 x = of_int (\<lfloor>x * 1000\<rfloor> + 1) / 1000"
  by (simp add: py_round3_def Let_def)

lemma py_round3_le:
  assumes "x \<le> of_int k / 1000"
  shows "py_round3 x \<le> of_int k / 1000"
proof -
  have le: "x * 1000 \<le> of_int k" using assms by simp
  have fl: "\<lfloor>x * 1000\<rfloor> \<le> k" using le by (simp add: floor_le_iff) 
  show ?thesis
  proof (cases "x * 1000 = of_int \<lfloor>x * 1000\<rfloor>")
    case True
    then have "py_round3 x = of_int \<lfloor>x * 1000\<rfloor> / 1000"
      by (simp add: py_round3_def Let_def)
    then show ?thesis using fl by simp
  next
    case False
    then have "of_int \<lfloor>x * 1000\<rfloor> < x * 1000" by linarith
    then have "of_int \<lfloor>x * 1000\<rfloor> < (of_int k :: real)" using le by linarith
    then have "\<lfloor>x * 1000\<rfloor> + 1 \<le> k" by linarith
    then have "(of_int (\<lfloor>x * 1000\<rfloor> + 1) :: real) \<le> of_int k" by linarith
    moreover have "(of_int \<lfloor>x * 1000\<rfloor> :: real) \<le> of_int k" using fl by linarith
    ultimately show ?thesis using py_round3_cases [of x] by (auto simp: divide_right_mono)
  qed
qed

lemma py_round3_ge:
  assumes "of_int k / 1000 \<le> x"
  shows "of_int k / 1000 \<le> py_round3 x"
proof -
  have "of_int k \<le> x * 1000" using assms by simp
  then have fl: "k \<le> \<lfloor>x * 1000\<rfloor>" by (simp add: le_floor_iff)
  then have "(of_int k :: real) \<le> of_int \<lfloor>x * 1000\<rfloor>" by linarith
  moreover have "(of_int k :: real) \<le> of_int (\<lfloor>x * 1000\<rfloor> + 1)" using fl by linarith
  ultimately show ?thesis using py_round3_cases [of x] by (auto simp: divide_right_mono)
qed

lemma py_round3_range:
  "-1 \<le> x \<Longrightarrow> x \<le> 1 \<Longrightarrow> -1 \<le> py_round3 x \<and> py_round3 x \<le> 1"
  using py_round3_le [of x 1000] py_round3_ge [of "-1000" x] by simp

lemma py_round3_range01:
  "0 \<le> x \<Longrightarrow> x \<le> 1 \<Longrightarrow> 0 \<le> py_round3 x \<and> py_round3 x \<le> 1"
  using py_round3_le [of x 1000] py_round3_ge [of 0 x] by simp

lemma py_round3_fix: "py_round3 (of_int k / 1000) = of_int k / 1000"
  by (simp add: py_round3_def Let_def)

lemma py_round3_near: "\<bar>py_round3 x - x\<bar> \<le> 1 / 2000"
proof -
  define f where "f = \<lfloor>x * 1000\<rfloor>"
  define d where "d = x * 1000 - of_int f"
  have d: "0 \<le> d" "d < 1" unfolding d_def f_def by linarith+
  have x: "x = (of_int f + d) / 1000" unfolding d_def by simp
  show ?thesis
    unfolding py_round3_def Let_def f_def [symmetric] d_def [symmetric]
    using d by (auto simp: x abs_if field_simps)
qed

lemma foldl_nearest_step_mem:
  "fst (foldl (nearest_step v a) acc table) \<in> insert (fst acc) (fst ` set table)"
proof (induction table arbitrary: acc)
  case Nil
  show ?case by simp
next
  case (Cons e table)
  have step: "fst (nearest_step v a acc e) \<in> {fst acc, fst e}"
    by (cases acc; cases e) (simp add: nearest_step_def Let_def)
  from Cons.IH [of "nearest_step v a acc e"] step show ?case by auto
qed

lemma nearest_in_mem: "nearest_in table v a \<in> insert (str ''neutral'') (fst ` set table)"
  unfolding nearest_in_def using foldl_nearest_step_mem [of v a "(str ''neutral'', None)" table]
  by simp

lemma neutral_lookup: "map_of EMOTION_MAP (str ''neutral'') = Some (0, 0.2)"
  by (simp add: EMOTION_MAP_def str_def)

lemma neutral_is_label: "str ''neutral'' \<in> fst ` set EMOTION_MAP"
proof -
  have "(str ''neutral'', 0, 0.2) \<in> set EMOTION_MAP"
    using neutral_lookup by (rule map_of_SomeD)
  then show ?thesis by (rule image_eqI [rotated]) simp
qed

lemma nearest_label_mem: "nearest_label v a \<in> set EMOTION_LABELS"
  using nearest_in_mem [of EMOTION_MAP v a] neutral_is_label
  by (simp add: nearest_label_def EMOTION_LABELS_def insert_absorb)

lemma intensity_mem: "intensity_from_arousal a \<in> set INTENSITY_LEVELS"
  by (simp add: intensity_from_arousal_def INTENSITY_LEVELS_def)

lemma EMOTION_MAP_in_range:
  "(l, v, a) \<in> set EMOTION_MAP \<Longrightarrow> -1 \<le> v \<and> v \<le> 1 \<and> 0 \<le> a \<and> a \<le> 1"
  by (auto simp: EMOTION_MAP_def)

lemma emotion_map_get_range:
  "emotion_map_get l = (v, a) \<Longrightarrow> -1 \<le> v \<and> v \<le> 1 \<and> 0 \<le> a \<and> a \<le> 1"
proof (cases "map_of EMOTION_MAP l")
  case None
  assume "emotion_map_get l = (v, a)"
  with None have "v = 0 \<and> a = 0.2" by (simp add: emotion_map_get_def neutral_lookup)
  then show ?thesis by simp
next
  case (Some p)
  assume "emotion_map_get l = (v, a)"
  with Some have "map_of EMOTION_MAP l = Some (v, a)" by (simp add: emotion_map_get_def)
  then have "(l, v, a) \<in> set EMOTION_MAP" by (rule map_of_SomeD)
  then show ?thesis by (rule EMOTION_MAP_in_range)
qed

lemma clamp_range: "lo \<le> hi \<Longrightarrow> lo \<le> clamp x lo hi \<and> clamp x lo hi \<le> hi"
  by (simp add: clamp_def)


lemma apply_mbti_modifiers_range:
  assumes "-1 \<le> v" "v \<le> 1" "0 \<le> a" "a \<le> 1" "apply_mbti_modifiers v a mb = (v', a')"
  shows "-1 \<le> v' \<and> v' \<le> 1 \<and> 0 \<le> a' \<and> a' \<le> 1"
proof (cases "mb = None \<or> (\<exists>ms. mb = Some ms \<and> (ms = [] \<or> length ms < 4))")
  case True
  then have "apply_mbti_modifiers v a mb = (v, a)"
    by (auto simp: apply_mbti_modifiers_def)
  with assms show ?thesis by simp
next
  case False
  then obtain ms where m: "mb = Some ms" "ms \<noteq> []" "\<not> length ms < 4" by (cases mb) auto
  from assms(5) m obtain x y where "v' = clamp x (-1) 1" "a' = clamp y 0 1"
    by (auto simp: apply_mbti_modifiers_def Let_def)
  then show ?thesis using clamp_range [of "-1" 1 x] clamp_range [of 0 1 y] by simp
qed

lemma label_to_circumplex_range:
  "-1 \<le> valence (label_to_circumplex l m) \<and> valence (label_to_circumplex l m) \<le> 1 \<and>
   0 \<le> arousal (label_to_circumplex l m) \<and> arousal (label_to_circumplex l m) \<le> 1 \<and>
   label (label_to_circumplex l m) \<in> set EMOTION_LABELS \<and>
   intensity (label_to_circumplex l m) \<in> set INTENSITY_LEVELS"
proof -
  obtain v0 a0 where g: "emotion_map_get l = (v0, a0)" by (cases "emotion_map_get l")
  obtain v a where m: "apply_mbti_modifiers v0 a0 m = (v, a)"
    by (cases "apply_mbti_modifiers v0 a0 m")
  from emotion_map_get_range [OF g] have r0: "-1 \<le> v0" "v0 \<le> 1" "0 \<le> a0" "a0 \<le> 1" by simp_all
  from apply_mbti_modifiers_range [OF r0 m] have r: "-1 \<le> v" "v \<le> 1" "0 \<le> a" "a \<le> 1" by simp_all
  show ?thesis
    using py_round3_range [OF r(1,2)] py_round3_range01 [OF r(3,4)]
    by (simp add: label_to_circumplex_def g m nearest_label_mem intensity_mem)
qed

lemma apply_inertia_range:
  "-1 \<le> valence (apply_inertia p n f) \<and> valence (apply_inertia p n f) \<le> 1 \<and>
   0 \<le> arousal (apply_inertia p n f) \<and> arousal (apply_inertia p n f) \<le> 1 \<and>
   label (apply_inertia p n f) \<in> set EMOTION_LABELS \<and>
   intensity (apply_inertia p n f) \<in> set INTENSITY_LEVELS"
proof -
  obtain wp wn where w: "inertia_weights p f = (wp, wn)" by (cases "inertia_weights p f")
  let ?v = "clamp (valence p * wp + valence n * wn) (-1) 1"
  let ?a = "clamp (arousal p * wp + arousal n * wn) 0 1"
  have rv: "-1 \<le> ?v" "?v \<le> 1" using clamp_range [of "-1" 1] by simp_all
  have ra: "0 \<le> ?a" "?a \<le> 1" using clamp_range [of 0 1] by simp_all
  show ?thesis
    using py_round3_range [OF rv] py_round3_range01 [OF ra]
    by (simp add: apply_inertia_def w Let_def nearest_label_mem intensity_mem)
qed

lemma labels_21: "length EMOTION_LABELS = 21 \<and> distinct EMOTION_LABELS"
  by (simp add: EMOTION_LABELS_def EMOTION_MAP_def str_def)

subsection \<open>Emotion states: ranges and self-blending\<close>

lemmas nl_eval = nearest_label_def nearest_in_def EMOTION_MAP_def nearest_step_def py_hypot_def str_def Let_def

text \<open>
  \<^bold>\<open>C9.\<close> Every state returned by \<open>label_to_circumplex\<close> or \<open>apply_inertia\<close> has its
  valence in \<open>[-1, 1]\<close>, its arousal in \<open>[0, 1]\<close>, a label of the canonical table and an
  intensity among low, mid and high, whatever the label, the MBTI string and the two
  states given; the canonical table has 21 labels.
\<close>

theorem emotion_states_in_domain:
  "in_domain (label_to_circumplex lbl m) \<and> in_domain (apply_inertia prev new f) \<and>
   length EMOTION_LABELS = 21"
  using label_to_circumplex_range [of lbl m] apply_inertia_range [of prev new f] labels_21
  by (simp add: in_domain_def)

theorem emotion_states_in_domain_witness:
  "in_domain (label_to_circumplex (str ''no such label'') (Some (str ''ENFP''))) \<and>
   in_domain (apply_inertia
     \<lparr>valence = 1, arousal = 1, label = str ''excited'', intensity = str ''high''\<rparr>
     \<lparr>valence = -1, arousal = 0, label = str ''sad'', intensity = str ''low''\<rparr> 9)"
  using emotion_states_in_domain [of "str ''no such label''" "Some (str ''ENFP'')"
      "\<lparr>valence = 1, arousal = 1, label = str ''excited'', intensity = str ''high''\<rparr>"
      "\<lparr>valence = -1, arousal = 0, label = str ''sad'', intensity = str ''low''\<rparr>" 9]
  by simp








text \<open>
  At a tie between two labels the exact blend keeps the label that the table lists
  first; the state below lies at the same distance from bored and from lonely, so it
  is left out of the fixed points above.
\<close>

lemma tie_is_not_strict:
  "\<not> strictly_nearest
      \<lparr>valence = -0.45, arousal = 0, label = str ''bored'', intensity = str ''low''\<rparr>"
  by (simp add: strictly_nearest_def EMOTION_MAP_def py_hypot_def str_def)


subsection \<open>Reconnecting the adapter\<close>

lemma attempts_3: "[1 ..< 3 + 1] = [1, 2, Suc 2]"
  by (simp add: upt_rec)

text \<open>
  \<^bold>\<open>C5\<close> (amended). \<open>reconnect()\<close> makes at most three connection attempts and stops at
  the first that succeeds; it does not wait before the first attempt, waits 1.0 s before
  the second and 1.5 s before the third (\<open>0.5 * attempt\<close>), and returns False when all
  three fail.
\<close>

theorem reconnect_schedule:
  "reconnect 3 connect_ok =
     (if connect_ok 1 then ([Close, Connect], True)
      else if connect_ok 2 then ([Close, Connect, Close, Sleep 1.0, Connect], True)
      else if connect_ok 3 then
        ([Close, Connect, Close, Sleep 1.0, Connect, Close, Sleep 1.5, Connect], True)
      else ([Close, Connect, Close, Sleep 1.0, Connect, Close, Sleep 1.5, Connect], False))"
  by (simp add: reconnect_def attempts_3 eval_nat_numeral)

theorem reconnect_schedule_witness:
  "reconnect 3 (\<lambda>attempt. attempt = 2) = ([Close, Connect, Close, Sleep 1.0, Connect], True)"
  using reconnect_schedule [of "\<lambda>attempt. attempt = 2"] by simp

theorem reconnect_waits_counterexample:
  "fst (reconnect 3 (\<lambda>attempt. False))
     = [Close, Connect, Close, Sleep 1.0, Connect, Close, Sleep 1.5, Connect] \<and>
   fst (reconnect 3 (\<lambda>attempt. False))
     \<noteq> [Close, Connect, Close, Sleep 0.5, Connect, Close, Sleep 1.0, Connect]"
  by (simp add: reconnect_def attempts_3 eval_nat_numeral)

lemma reconnect_all_fail:
  "\<not> connect_ok 1 \<Longrightarrow> \<not> connect_ok 2 \<Longrightarrow> \<not> connect_ok 3 \<Longrightarrow>
   reconnect 3 connect_ok =
     ([Close, Connect, Close, Sleep 1.0, Connect, Close, Sleep 1.5, Connect], False)"
  by (simp add: reconnect_def attempts_3 eval_nat_numeral)

text \<open>
  \<^bold>\<open>C1\<close> (amended). When \<open>reconnect()\<close> is called at a turn boundary of a running
  session and its three attempts fail, it returns False, and routine (b) then sends
  exactly one frame to the client, an error frame with the code \<open>GEMINI_DISCONNECTED\<close>,
  and returns, leaving the session state as it was.
\<close>

theorem reconnect_exhausted:
  assumes "\<not> connect_ok 1" "\<not> connect_ok 2" "\<not> connect_ok 3" "running st"
  shows "snd (reconnect 3 connect_ok) = False \<and>
         fst (turn_boundary st connect_ok now running_after) = Return \<and>
         fst (snd (turn_boundary st connect_ok now running_after)) = st \<and>
         ws_frames (snd (snd (turn_boundary st connect_ok now running_after)))
           = [ErrorFrame (str ''GEMINI_DISCONNECTED'') (str ''Lost connection to AI'')]"
  using assms by (simp add: reconnect_all_fail turn_boundary_def)

theorem reconnect_exhausted_witness:
  "running SessionState_init \<and>
   snd (reconnect 3 (\<lambda>attempt. False)) = False \<and>
   fst (turn_boundary SessionState_init (\<lambda>attempt. False) 0 True) = Return \<and>
   ws_frames (snd (snd (turn_boundary SessionState_init (\<lambda>attempt. False) 0 True)))
     = [ErrorFrame (str ''GEMINI_DISCONNECTED'') (str ''Lost connection to AI'')]"
  using reconnect_exhausted [of "\<lambda>attempt. False" SessionState_init 0 True]
  by (simp add: SessionState_init_def)

theorem upstream_disconnected_counterexample:
  "ws_frames (snd (snd (turn_boundary SessionState_init (\<lambda>attempt. False) 0 True)))
     = [ErrorFrame (str ''GEMINI_DISCONNECTED'') (str ''Lost connection to AI'')] \<and>
   str ''GEMINI_DISCONNECTED'' \<noteq> str ''UPSTREAM_DISCONNECTED'' \<and>
   running (fst (snd (turn_boundary SessionState_init (\<lambda>attempt. False) 0 True)))"
proof -
  have r: "running SessionState_init" by (simp add: SessionState_init_def)
  have "str ''GEMINI_DISCONNECTED'' \<noteq> str ''UPSTREAM_DISCONNECTED''" by (simp add: str_def)
  then show ?thesis using r by (simp add: reconnect_all_fail turn_boundary_def)
qed

lemma exception_path_sends_no_frame:
  "running st \<Longrightarrow> \<not> connect_ok 1 \<Longrightarrow> \<not> connect_ok 2 \<Longrightarrow> \<not> connect_ok 3 \<Longrightarrow>
   fst (on_loop_exception st connect_ok) = Return \<and>
   ws_frames (snd (snd (on_loop_exception st connect_ok))) = []"
  by (simp add: reconnect_all_fail on_loop_exception_def)

lemma client_path_sends_one_frame:
  "\<not> send_ok 0 \<Longrightarrow> \<not> connect_ok 0 1 \<Longrightarrow> \<not> connect_ok 0 2 \<Longrightarrow> \<not> connect_ok 0 3 \<Longrightarrow>
   fst (on_client_message st now send_ok connect_ok (AudioMsg b)) = Return \<and>
   ws_frames (snd (snd (on_client_message st now send_ok connect_ok (AudioMsg b))))
     = [ErrorFrame (str ''GEMINI_DISCONNECTED'') (str ''Lost connection to AI'')]"
  by (simp add: reconnect_all_fail on_client_message_def upt_rec)

subsection \<open>The heuristic classifier without a keyword match\<close>

lemma foldl_score_zero:
  "list_all (\<lambda>kw. \<not> py_in kw t) kws \<Longrightarrow>
   foldl (\<lambda>s kw. if py_in kw t then s + 1 else s) (n::nat) kws = n"
  by (induction kws arbitrary: n) simp_all

lemma keyword_score_zero:
  "list_all (\<lambda>kw. \<not> py_in kw t) kws \<Longrightarrow> keyword_score t kws = 0"
  by (simp add: keyword_score_def foldl_score_zero)

lemma keyword_scores_zero:
  assumes "no_keyword_match_with lower txt"
  shows "keyword_scores (lower txt) = map (\<lambda>(emotion, keywords). (emotion, 0)) EMOTION_KEYWORDS"
  unfolding keyword_scores_def
proof (rule map_cong [OF refl])
  fix x assume x: "x \<in> set EMOTION_KEYWORDS"
  obtain e kws where [simp]: "x = (e, kws)" by (cases x)
  from assms x have "list_all (\<lambda>kw. \<not> py_in kw (lower txt)) kws"
    by (auto simp: no_keyword_match_with_def list_all_iff)
  then show "(case x of (emotion, keywords) \<Rightarrow> (emotion, keyword_score (lower txt) keywords))
      = (case x of (emotion, keywords) \<Rightarrow> (emotion, 0))"
    by (simp add: keyword_score_zero)
qed

lemma foldl_max_key_zero:
  "list_all (\<lambda>(k, v). v = 0) xs \<Longrightarrow>
   foldl (\<lambda>(bk, bv) (k, v). if bv < v then (k, v) else (bk, bv)) (k0, v0 :: nat) xs = (k0, v0)"
  by (induction xs) (auto)

lemma zero_scores_all_zero:
  "list_all (\<lambda>(k, v). v = (0::nat)) (map (\<lambda>(emotion, keywords). (emotion, 0)) rest)"
  by (induction rest) auto

lemma max_key_all_zero:
  "max_key (map (\<lambda>(emotion, keywords). (emotion, 0)) ((e, kws) # rest)) = (e, 0)"
  by (simp add: foldl_max_key_zero zero_scores_all_zero)

lemma max_key_no_match:
  assumes "no_keyword_match_with lower txt"
  shows "max_key (keyword_scores (lower txt)) = (str ''happy'', 0)"
proof -
  obtain kws rest where "EMOTION_KEYWORDS = (str ''happy'', kws) # rest"
    unfolding EMOTION_KEYWORDS_def by blast
  then show ?thesis
    using keyword_scores_zero [OF assms] max_key_all_zero [of "str ''happy''" kws rest] by simp
qed

lemma heuristic_with_no_match:
  assumes "no_keyword_match_with lower txt"
  shows "classify_emotion_heuristic_with lower txt rel fam =
     (case rel of
        None \<Rightarrow> str ''neutral''
      | Some r \<Rightarrow>
          (case (if r = [] then None else map_of RELATIONSHIP_EMOTION_BIAS r) of
             None \<Rightarrow> str ''neutral''
           | Some bias \<Rightarrow>
               if fam \<ge> 7 then bias
               else if fam \<ge> 4 then (if length txt > 20 then bias else str ''neutral'')
               else str ''neutral''))"
  by (simp add: classify_emotion_heuristic_with_def Let_def max_key_no_match [OF assms])

lemma heuristic_no_match:
  assumes "no_keyword_match txt"
  shows "classify_emotion_heuristic txt rel fam =
     (case rel of
        None \<Rightarrow> str ''neutral''
      | Some r \<Rightarrow>
          (case (if r = [] then None else map_of RELATIONSHIP_EMOTION_BIAS r) of
             None \<Rightarrow> str ''neutral''
           | Some bias \<Rightarrow>
               if fam \<ge> 7 then bias
               else if fam \<ge> 4 then (if length txt > 20 then bias else str ''neutral'')
               else str ''neutral''))"
  using assms unfolding classify_emotion_heuristic_def no_keyword_match_def
  by (rule heuristic_with_no_match)

lemma bias_key_nonempty: "map_of RELATIONSHIP_EMOTION_BIAS [] = None"
  by (simp add: RELATIONSHIP_EMOTION_BIAS_def str_def)

text \<open>
  \<^bold>\<open>C6.\<close> For a text in whose lower-cased form no keyword of the lexicon occurs,
  whatever the lower-casing function is, the heuristic classifier returns the bias label
  of the relationship type when the type has a bias entry and the familiarity is at
  least 7; with a familiarity from 4 to 6 it returns the bias label when the text is
  longer than 20 characters and neutral otherwise; it returns neutral when the
  familiarity is below 4, and when there is no relationship type or the type has no
  bias entry.
\<close>

theorem heuristic_without_keyword:
  assumes "no_keyword_match_with lower txt"
  shows "(rel = Some r \<and> map_of RELATIONSHIP_EMOTION_BIAS r = Some bias \<and> 7 \<le> fam
            \<longrightarrow> classify_emotion_heuristic_with lower txt rel fam = bias)
       \<and> (rel = Some r \<and> map_of RELATIONSHIP_EMOTION_BIAS r = Some bias \<and> 4 \<le> fam \<and> fam \<le> 6
            \<longrightarrow> classify_emotion_heuristic_with lower txt rel fam
                  = (if length txt > 20 then bias else str ''neutral''))
       \<and> (fam < 4 \<longrightarrow> classify_emotion_heuristic_with lower txt rel fam = str ''neutral'')
       \<and> (rel = None \<or> (rel = Some r \<and> map_of RELATIONSHIP_EMOTION_BIAS r = None)
            \<longrightarrow> classify_emotion_heuristic_with lower txt rel fam = str ''neutral'')"
  using bias_key_nonempty
  by (auto simp: heuristic_with_no_match [OF assms] split: option.splits)

lemmas kw_eval = no_keyword_match_def no_keyword_match_with_def EMOTION_KEYWORDS_def py_lower_def str_def

lemma no_match_short: "no_keyword_match (str ''ok then'')"
  by (simp add: kw_eval)

lemma no_match_long: "no_keyword_match (str ''Ok then, see you at ten.'')"
  by (simp add: kw_eval)

lemma bias_nemesis: "map_of RELATIONSHIP_EMOTION_BIAS (str ''Nemesis'') = Some (str ''angry'')"
  by (simp add: RELATIONSHIP_EMOTION_BIAS_def str_def)

lemma bias_unknown: "map_of RELATIONSHIP_EMOTION_BIAS (str ''Pen Pal'') = None"
  by (simp add: RELATIONSHIP_EMOTION_BIAS_def str_def)

theorem heuristic_without_keyword_witness:
  "no_keyword_match_with py_lower (str ''ok then'') \<and>
   no_keyword_match_with py_lower (str ''Ok then, see you at ten.'') \<and>
   classify_emotion_heuristic_with py_lower (str ''ok then'') (Some (str ''Nemesis'')) 8
     = str ''angry'' \<and>
   classify_emotion_heuristic_with py_lower (str ''Ok then, see you at ten.'')
     (Some (str ''Nemesis'')) 5 = str ''angry'' \<and>
   classify_emotion_heuristic_with py_lower (str ''ok then'') (Some (str ''Nemesis'')) 5
     = str ''neutral'' \<and>
   classify_emotion_heuristic_with py_lower (str ''Ok then, see you at ten.'')
     (Some (str ''Nemesis'')) 3 = str ''neutral'' \<and>
   classify_emotion_heuristic_with py_lower (str ''Ok then, see you at ten.'')
     (Some (str ''Pen Pal'')) 9 = str ''neutral'' \<and>
   classify_emotion_heuristic_with py_lower (str ''Ok then, see you at ten.'') None 9
     = str ''neutral''"
proof -
  have l1: "\<not> 20 < length (str ''ok then'')" and l2: "20 < length (str ''Ok then, see you at ten.'')"
    by (simp_all add: str_def)
  have s: "no_keyword_match_with py_lower (str ''ok then'')"
    and l: "no_keyword_match_with py_lower (str ''Ok then, see you at ten.'')"
    using no_match_short no_match_long by (simp_all only: no_keyword_match_def)
  show ?thesis
    using heuristic_without_keyword [OF s, of "Some (str ''Nemesis'')" "str ''Nemesis''" "str ''angry''" 8]
      heuristic_without_keyword [OF l, of "Some (str ''Nemesis'')" "str ''Nemesis''" "str ''angry''" 5]
      heuristic_without_keyword [OF s, of "Some (str ''Nemesis'')" "str ''Nemesis''" "str ''angry''" 5]
      heuristic_without_keyword [OF l, of "Some (str ''Nemesis'')" "str ''Nemesis''" "str ''angry''" 3]
      heuristic_without_keyword [OF l, of "Some (str ''Pen Pal'')" "str ''Pen Pal''" "[]" 9]
      heuristic_without_keyword [OF l, of None "[]" "[]" 9]
      s l bias_nemesis bias_unknown l1 l2
    by simp
qed

subsection \<open>Classification with inertia\<close>

lemma label_neutral_plain:
  "label_to_circumplex (str ''neutral'') None =
     \<lparr>valence = 0, arousal = 0.2, label = str ''neutral'', intensity = str ''low''\<rparr>"
proof -
  have n: "nearest_label 0 0.2 = str ''neutral''" by (simp add: nl_eval)
  have g: "emotion_map_get (str ''neutral'') = (0, 0.2)"
    by (simp add: emotion_map_get_def neutral_lookup)
  show ?thesis
    using n by (simp add: label_to_circumplex_def g apply_mbti_modifiers_def
        intensity_from_arousal_def py_round3_def)
qed

text \<open>
  \<^bold>\<open>C2\<close> (the code at a failing input). \<open>classify_to_circumplex\<close> is called with
  familiarity 9 and a previous state labelled happy. The blend it returns is the one
  with the weights (0.50, 0.50) of the default familiarity 5; the weights (0.35, 0.65)
  that \<open>apply_inertia\<close> uses for a familiarity of 8 or more give another state.
\<close>

theorem classify_blend_ignores_familiarity:
  "classify_to_circumplex (str ''ok then'') None 9 None
      (Some \<lparr>valence = 0.7, arousal = 0.5, label = str ''happy'', intensity = str ''mid''\<rparr>)
     = \<lparr>valence = 0.35, arousal = 0.35, label = str ''shy'', intensity = str ''mid''\<rparr> \<and>
   apply_inertia \<lparr>valence = 0.7, arousal = 0.5, label = str ''happy'', intensity = str ''mid''\<rparr>
      (label_to_circumplex (classify_emotion_heuristic (str ''ok then'') None 9) None) 9
     = \<lparr>valence = 0.245, arousal = 0.305, label = str ''shy'', intensity = str ''low''\<rparr>"
proof -
  have h: "classify_emotion_heuristic (str ''ok then'') None 9 = str ''neutral''"
    by (simp add: heuristic_no_match [OF no_match_short])
  have ne: "str ''happy'' \<noteq> str ''neutral''" by (simp add: str_def)
  have n1: "nearest_label 0.35 0.35 = str ''shy''" by (simp add: nl_eval)
  have n2: "nearest_label 0.245 0.305 = str ''shy''" by (simp add: nl_eval)
  have b5: "apply_inertia \<lparr>valence = 0.7, arousal = 0.5, label = str ''happy'', intensity = str ''mid''\<rparr>
      \<lparr>valence = 0, arousal = 0.2, label = str ''neutral'', intensity = str ''low''\<rparr> 5
     = \<lparr>valence = 0.35, arousal = 0.35, label = str ''shy'', intensity = str ''mid''\<rparr>"
    using n1 ne by (simp add: apply_inertia_def inertia_weights_def clamp_def Let_def
        intensity_from_arousal_def py_round3_def)
  have b9: "apply_inertia \<lparr>valence = 0.7, arousal = 0.5, label = str ''happy'', intensity = str ''mid''\<rparr>
      \<lparr>valence = 0, arousal = 0.2, label = str ''neutral'', intensity = str ''low''\<rparr> 9
     = \<lparr>valence = 0.245, arousal = 0.305, label = str ''shy'', intensity = str ''low''\<rparr>"
    using n2 ne by (simp add: apply_inertia_def inertia_weights_def clamp_def Let_def
        intensity_from_arousal_def py_round3_def)
  show ?thesis
    by (simp only: classify_to_circumplex_def Let_def h label_neutral_plain option.case b5 b9 simp_thms)
qed

lemma least_so_far_step:
  assumes "least_so_far x y S acc"
  shows "least_so_far x y (insert e S) (nearest_step x y acc e)"
proof -
  obtain lb db where acc: "acc = (lb, db)" by (cases acc)
  obtain l v a where e: "e = (l, v, a)" by (cases e)
  show ?thesis
  proof (cases db)
    case None
    with assms acc e show ?thesis
      by (simp add: least_so_far_def nearest_step_def Let_def)
  next
    case (Some b)
    with assms acc e show ?thesis
      by (fastforce simp: least_so_far_def nearest_step_def Let_def)
  qed
qed

lemma least_so_far_foldl:
  "least_so_far x y S acc \<Longrightarrow>
   least_so_far x y (S \<union> set table) (foldl (nearest_step x y) acc table)"
proof (induction table arbitrary: S acc)
  case Nil
  then show ?case by simp
next
  case (Cons e table)
  from Cons.IH [OF least_so_far_step [OF Cons.prems, of e]]
  show ?case by simp
qed

text \<open>The label found is a nearest one, and the table holds its point.\<close>

lemma nearest_label_least:
  "\<exists>v0 a0. map_of EMOTION_MAP (nearest_label x y) = Some (v0, a0) \<and>
     (\<forall>(l, v, a) \<in> set EMOTION_MAP. py_hypot (x - v0) (y - a0) \<le> py_hypot (x - v) (y - a))"
proof -
  let ?r = "foldl (nearest_step x y) (str ''neutral'', None) EMOTION_MAP"
  have "least_so_far x y {} (str ''neutral'', None)" by (simp add: least_so_far_def)
  from least_so_far_foldl [OF this, of EMOTION_MAP]
  have r: "least_so_far x y (set EMOTION_MAP) ?r" by simp
  have ne: "set EMOTION_MAP \<noteq> {}" using neutral_is_label by auto
  obtain lb db where p: "?r = (lb, db)" by (cases ?r)
  with r ne obtain b where "db = Some b" by (cases db) (auto simp: least_so_far_def)
  with r p obtain v0 a0 where mem: "(lb, v0, a0) \<in> set EMOTION_MAP"
    and least: "\<forall>(l, v, a) \<in> set EMOTION_MAP. py_hypot (x - v0) (y - a0) \<le> py_hypot (x - v) (y - a)"
    by (auto simp: least_so_far_def)
  have "distinct (map fst EMOTION_MAP)" using labels_21 by (simp add: EMOTION_LABELS_def)
  with mem have "map_of EMOTION_MAP lb = Some (v0, a0)" by simp
  moreover have "nearest_label x y = lb" by (simp add: nearest_label_def nearest_in_def p)
  ultimately show ?thesis using least by blast
qed

lemma py_hypot_triangle:
  "py_hypot (a + c) (b + d) \<le> py_hypot a b + py_hypot c d"
  using real_sqrt_sum_squares_triangle_ineq [of a c b d]
  by (simp add: py_hypot_def power2_eq_square)

lemma py_hypot_small:
  assumes "\<bar>dx\<bar> \<le> 1 / 2000" "\<bar>dy\<bar> \<le> 1 / 2000"
  shows "py_hypot dx dy \<le> 3 / 4000"
proof -
  have "\<bar>dx\<bar> * \<bar>dx\<bar> \<le> (1 / 2000) * (1 / 2000)"
    by (rule mult_mono [OF assms(1) assms(1)]) simp_all
  then have x: "dx * dx \<le> (1 / 2000) * (1 / 2000)" by (simp only: abs_mult_self_eq)
  have "\<bar>dy\<bar> * \<bar>dy\<bar> \<le> (1 / 2000) * (1 / 2000)"
    by (rule mult_mono [OF assms(2) assms(2)]) simp_all
  then have y: "dy * dy \<le> (1 / 2000) * (1 / 2000)" by (simp only: abs_mult_self_eq)
  have "(1 / 2000) * (1 / 2000) + (1 / 2000) * (1 / 2000) \<le> ((3::real) / 4000)\<^sup>2"
    by (simp add: power2_eq_square)
  with x y have "dx * dx + dy * dy \<le> (3 / 4000)\<^sup>2" by linarith
  then have "sqrt (dx * dx + dy * dy) \<le> 3 / 4000" by (intro real_le_lsqrt) simp_all
  then show ?thesis by (simp only: py_hypot_def)
qed

text \<open>
  Rounding the point to three decimals after the label was found moves it by less than
  0.00075, so the label stays nearest up to 0.0015.
\<close>

lemma nearest_within_rounded:
  assumes "label s = nearest_label x y"
    and "\<bar>valence s - x\<bar> \<le> 1 / 2000" "\<bar>arousal s - y\<bar> \<le> 1 / 2000"
  shows "nearest_within 0.0015 s"
proof -
  from nearest_label_least [of x y] assms(1) obtain v0 a0
    where m: "map_of EMOTION_MAP (label s) = Some (v0, a0)"
      and least: "\<forall>(l, v, a) \<in> set EMOTION_MAP. py_hypot (x - v0) (y - a0) \<le> py_hypot (x - v) (y - a)"
    by auto
  have near: "py_hypot (valence s - x) (arousal s - y) \<le> 3 / 4000"
    using assms(2,3) by (rule py_hypot_small)
  have near': "py_hypot (x - valence s) (y - arousal s) \<le> 3 / 4000"
    using assms(2,3) by (intro py_hypot_small) (simp_all add: abs_minus_commute)
  have "py_hypot (valence s - v0) (arousal s - a0) \<le> py_hypot (valence s - v) (arousal s - a) + 0.0015"
    if e: "(l, v, a) \<in> set EMOTION_MAP" for l v a
  proof -
    have "py_hypot (valence s - v0) (arousal s - a0)
        \<le> py_hypot (x - v0) (y - a0) + py_hypot (valence s - x) (arousal s - y)"
      using py_hypot_triangle [of "x - v0" "valence s - x" "y - a0" "arousal s - y"] by simp
    moreover have "py_hypot (x - v0) (y - a0) \<le> py_hypot (x - v) (y - a)"
      using least e by auto
    moreover have "py_hypot (x - v) (y - a)
        \<le> py_hypot (valence s - v) (arousal s - a) + py_hypot (x - valence s) (y - arousal s)"
      using py_hypot_triangle [of "valence s - v" "x - valence s" "arousal s - a" "y - arousal s"]
      by simp
    ultimately show ?thesis using near near' by simp
  qed
  then show ?thesis by (auto simp: nearest_within_def m list_all_iff)
qed

lemma intensity_fits_rounded:
  assumes "intensity s = intensity_from_arousal y" "arousal s = py_round3 y"
  shows "intensity_fits s"
proof -
  consider (low) "y < 0.35" | (mid) "0.35 \<le> y" "y \<le> 0.65" | (high) "0.65 < y"
    by linarith
  then show ?thesis
  proof cases
    case low
    with py_round3_le [of y 350] assms show ?thesis
      by (simp add: intensity_fits_def intensity_from_arousal_def)
  next
    case mid
    with py_round3_ge [of 350 y] py_round3_le [of y 650] assms show ?thesis
      by (simp add: intensity_fits_def intensity_from_arousal_def)
  next
    case high
    with py_round3_ge [of 650 y] assms show ?thesis
      by (simp add: intensity_fits_def intensity_from_arousal_def)
  qed
qed

lemma label_to_circumplex_point:
  "\<exists>v a. valence (label_to_circumplex l m) = py_round3 v \<and>
         arousal (label_to_circumplex l m) = py_round3 a \<and>
         label (label_to_circumplex l m) = nearest_label v a \<and>
         intensity (label_to_circumplex l m) = intensity_from_arousal a"
proof -
  obtain v0 a0 where g: "emotion_map_get l = (v0, a0)" by (cases "emotion_map_get l")
  obtain v a where mm: "apply_mbti_modifiers v0 a0 m = (v, a)"
    by (cases "apply_mbti_modifiers v0 a0 m")
  show ?thesis by (simp add: label_to_circumplex_def g mm) blast
qed

lemma apply_inertia_point:
  "\<exists>v a. valence (apply_inertia p n f) = py_round3 v \<and>
         arousal (apply_inertia p n f) = py_round3 a \<and>
         label (apply_inertia p n f) = nearest_label v a \<and>
         intensity (apply_inertia p n f) = intensity_from_arousal a"
proof -
  obtain wp wn where w: "inertia_weights p f = (wp, wn)" by (cases "inertia_weights p f")
  show ?thesis by (simp add: apply_inertia_def w Let_def) blast
qed

lemma point_fits:
  assumes "valence s = py_round3 v" "arousal s = py_round3 a"
    and "label s = nearest_label v a" "intensity s = intensity_from_arousal a"
  shows "nearest_within 0.0015 s \<and> intensity_fits s"
proof
  show "nearest_within 0.0015 s"
    using assms(3) py_round3_near [of v] py_round3_near [of a]
    by (intro nearest_within_rounded [of s v a]) (simp_all add: assms(1,2))
  show "intensity_fits s" using assms(4,2) by (rule intensity_fits_rounded)
qed

text \<open>
  \<^bold>\<open>C3\<close> (amended). The emotion of the \<open>SessionState\<close> initialiser satisfies the
  discretisation invariant. Every state that \<open>classify_to_circumplex\<close> returns, so
  every current emotion written by a reclassification, carries the label and the
  intensity of its point before the rounding to three decimals: in terms of the stored
  point, the label is a label of the canonical table that is nearest up to 0.0015, and
  the intensity is low only for an arousal of at most 0.35, mid only from 0.35 to 0.65
  and high only from 0.65 on. The states seeded from the relationship default table are
  stored as the table gives them.
\<close>

theorem computed_emotion_discretised:
  "discretisation (current_emotion SessionState_init) \<and>
   nearest_within 0.0015 (classify_to_circumplex txt rel fam m prev) \<and>
   intensity_fits (classify_to_circumplex txt rel fam m prev)"
proof
  have "nearest_label 0 0.2 = str ''neutral''" by (simp add: nl_eval)
  then show "discretisation (current_emotion SessionState_init)"
    by (simp add: discretisation_def SessionState_init_def intensity_from_arousal_def)
next
  let ?s = "classify_to_circumplex txt rel fam m prev"
  have "\<exists>v a. valence ?s = py_round3 v \<and> arousal ?s = py_round3 a \<and>
      label ?s = nearest_label v a \<and> intensity ?s = intensity_from_arousal a"
    using label_to_circumplex_point apply_inertia_point
    by (cases prev) (simp_all add: classify_to_circumplex_def Let_def)
  then obtain v a where "valence ?s = py_round3 v" "arousal ?s = py_round3 a"
    "label ?s = nearest_label v a" "intensity ?s = intensity_from_arousal a" by blast
  then show "nearest_within 0.0015 ?s \<and> intensity_fits ?s" by (rule point_fits)
qed

theorem computed_emotion_discretised_witness:
  "nearest_within 0.0015
     (classify_to_circumplex (str ''ok then'') (Some (str ''Nemesis'')) 8 (Some (str ''ENFP''))
        (Some (current_emotion SessionState_init))) \<and>
   intensity_fits
     (classify_to_circumplex (str ''ok then'') (Some (str ''Nemesis'')) 8 (Some (str ''ENFP''))
        (Some (current_emotion SessionState_init)))"
  using computed_emotion_discretised [of "str ''ok then''" "Some (str ''Nemesis'')" 8
      "Some (str ''ENFP'')" "Some (current_emotion SessionState_init)"]
  by blast

theorem seeded_emotion_counterexample:
  "\<not> discretisation (seed_emotion None (Some (str ''Friend'')))"
proof -
  have s: "seed_emotion None (Some (str ''Friend'')) =
      \<lparr>valence = 0.3, arousal = 0.3, label = str ''happy'', intensity = str ''low''\<rparr>"
    by (simp add: seed_emotion_def RELATIONSHIP_DEFAULT_EMOTIONS_def str_def)
  have n: "nearest_label 0.3 0.3 = str ''shy''" by (simp add: nl_eval)
  have "str ''happy'' \<noteq> str ''shy''" by (simp add: str_def)
  then show ?thesis using n by (simp add: s discretisation_def)
qed

lemma seeded_intensity_outside_levels:
  "intensity (seed_emotion None (Some (str ''Romantic Partner''))) = str ''medium'' \<and>
   str ''medium'' \<notin> set INTENSITY_LEVELS"
  by (simp add: seed_emotion_def RELATIONSHIP_DEFAULT_EMOTIONS_def INTENSITY_LEVELS_def str_def)

text \<open>
  The label and the intensity are those of the point before it is rounded: here the
  blend has arousal 0.3497, of class low, and is stored as 0.35, of class mid.
\<close>

lemma rounding_can_break_discretisation:
  "\<not> discretisation (apply_inertia
      \<lparr>valence = 0, arousal = 0.3, label = str ''sad'', intensity = str ''low''\<rparr>
      \<lparr>valence = 0.8, arousal = 0.442, label = str ''loving'', intensity = str ''mid''\<rparr> 3)"
proof -
  have ne: "str ''sad'' \<noteq> str ''neutral''" "str ''low'' \<noteq> str ''mid''" by (simp_all add: str_def)
  have "arousal (apply_inertia
      \<lparr>valence = 0, arousal = 0.3, label = str ''sad'', intensity = str ''low''\<rparr>
      \<lparr>valence = 0.8, arousal = 0.442, label = str ''loving'', intensity = str ''mid''\<rparr> 3) = 0.35
    \<and> intensity (apply_inertia
      \<lparr>valence = 0, arousal = 0.3, label = str ''sad'', intensity = str ''low''\<rparr>
      \<lparr>valence = 0.8, arousal = 0.442, label = str ''loving'', intensity = str ''mid''\<rparr> 3) = str ''low''"
    using ne by (simp add: apply_inertia_def inertia_weights_def clamp_def Let_def
        intensity_from_arousal_def py_round3_def)
  then show ?thesis using ne by (simp add: discretisation_def intensity_from_arousal_def)
qed

subsection \<open>Whitespace transcripts\<close>

lemma ws_frames_append: "ws_frames (xs @ ys) = ws_frames xs @ ws_frames ys"
  by (induction xs rule: ws_frames.induct) simp_all

lemma forward_audio_parts_no_text:
  "list_all (\<lambda>f. \<not> is_text_frame f) (ws_frames (forward_audio_parts st parts))"
proof (induction parts)
  case Nil
  show ?case by (simp add: forward_audio_parts_def)
next
  case (Cons p parts)
  then show ?case
    by (simp add: forward_audio_parts_def ws_frames_append Let_def split: option.splits)
qed

lemma on_output_transcription_whitespace:
  assumes "py_strip txt = []" "user_interacted_since_last_emotion st"
  shows "on_output_transcription st txt =
     (st\<lparr>current_emotion := classify_to_circumplex txt (relationship_type st)
             (familiarity_level st) (mbti st) (Some (current_emotion st)),
         user_interacted_since_last_emotion := False\<rparr>, [])"
  using assms by (simp add: on_output_transcription_def Let_def)

text \<open>
  \<^bold>\<open>C10.\<close> A response of a running session carries an output transcription whose
  text is not empty but is all whitespace, and no input transcription, while the
  interaction-pending flag is set. Then the handler reclassifies: the current emotion
  becomes the result of \<open>classify_to_circumplex\<close> on that text, and the flag is cleared;
  the transcript buffer is unchanged and no text frame is sent to the client.
\<close>

theorem whitespace_transcript_reclassifies:
  assumes "running st" "\<not> go_away resp" "server_content resp = Some sc"
    and "\<not> interrupted sc" "\<not> turn_complete sc"
    and "output_transcription sc = Some txt" "txt \<noteq> []" "py_strip txt = []"
    and "input_transcription sc = None"
    and "user_interacted_since_last_emotion st"
  shows "fst (on_response st now resp) = Continue \<and>
         current_emotion (fst (snd (on_response st now resp)))
           = classify_to_circumplex txt (relationship_type st) (familiarity_level st) (mbti st)
               (Some (current_emotion st)) \<and>
         \<not> user_interacted_since_last_emotion (fst (snd (on_response st now resp))) \<and>
         transcript_buffer (fst (snd (on_response st now resp))) = transcript_buffer st \<and>
         list_all (\<lambda>f. \<not> is_text_frame f) (ws_frames (snd (snd (on_response st now resp))))"
proof -
  let ?audio = "case model_turn sc of None \<Rightarrow> [] | Some parts \<Rightarrow> forward_audio_parts st parts"
  have r: "on_response st now resp =
      (Continue,
       st\<lparr>current_emotion := classify_to_circumplex txt (relationship_type st)
             (familiarity_level st) (mbti st) (Some (current_emotion st)),
          user_interacted_since_last_emotion := False\<rparr>,
       ?audio)"
    using assms by (simp add: on_response_def on_output_transcription_whitespace Let_def)
  have "list_all (\<lambda>f. \<not> is_text_frame f) (ws_frames ?audio)"
    by (cases "model_turn sc") (simp_all add: forward_audio_parts_no_text)
  then show ?thesis by (simp add: r)
qed

theorem whitespace_transcript_reclassifies_witness:
  "py_strip (str ''  '') = [] \<and> str ''  '' \<noteq> [] \<and>
   user_interacted_since_last_emotion SessionState_init \<and>
   \<not> user_interacted_since_last_emotion
       (fst (snd (on_response SessionState_init 1
          \<lparr>go_away = False,
            server_content = Some \<lparr>interrupted = False, turn_complete = False, model_turn = None,
              output_transcription = Some (str ''  ''), input_transcription = None\<rparr>\<rparr>))) \<and>
   transcript_buffer
       (fst (snd (on_response SessionState_init 1
          \<lparr>go_away = False,
            server_content = Some \<lparr>interrupted = False, turn_complete = False, model_turn = None,
              output_transcription = Some (str ''  ''), input_transcription = None\<rparr>\<rparr>))) = [] \<and>
   ws_frames
       (snd (snd (on_response SessionState_init 1
          \<lparr>go_away = False,
            server_content = Some \<lparr>interrupted = False, turn_complete = False, model_turn = None,
              output_transcription = Some (str ''  ''), input_transcription = None\<rparr>\<rparr>))) = []"
proof -
  have s: "py_strip (str ''  '') = []" "str ''  '' \<noteq> []"
    by (simp_all add: py_strip_def py_isspace_def str_def)
  have i: "running SessionState_init" "user_interacted_since_last_emotion SessionState_init"
    "transcript_buffer SessionState_init = []"
    by (simp_all add: SessionState_init_def)
  let ?sc = "\<lparr>interrupted = False, turn_complete = False, model_turn = None,
              output_transcription = Some (str ''  ''), input_transcription = None\<rparr>"
  let ?resp = "\<lparr>go_away = False, server_content = Some ?sc\<rparr>"
  have w: "ws_frames (snd (snd (on_response SessionState_init 1 ?resp))) = []"
    using s i by (simp add: on_response_def on_output_transcription_whitespace Let_def)
  from whitespace_transcript_reclassifies [of SessionState_init ?resp ?sc "str ''  ''" 1] s i w
  show ?thesis by simp
qed

subsection \<open>Emotional bursts\<close>

lemma text_sends_append: "text_sends (xs @ ys) = text_sends xs + text_sends ys"
  by (simp add: text_sends_def)

lemma text_sends_adapter: "text_sends (map Adapter calls) = 0"
  by (induction calls) (simp_all add: text_sends_def)

lemma text_sends_simps:
  "text_sends [] = 0"
  "text_sends (SendText p # out) = Suc (text_sends out)"
  "text_sends (WsSend f # out) = text_sends out"
  "text_sends (InjectContext ctx # out) = text_sends out"
  "text_sends (AsyncSleep d # out) = text_sends out"
  "text_sends (Adapter act # out) = text_sends out"
  by (simp_all add: text_sends_def)

lemma on_response_burst_fields:
  assumes "on_response st now resp = (fl, st1, out)"
  shows "burst_count st1 = burst_count st \<and> burst_cooldown_until st1 = burst_cooldown_until st"
proof -
  have o: "burst_count (fst (on_output_transcription s t)) = burst_count s \<and>
           burst_cooldown_until (fst (on_output_transcription s t)) = burst_cooldown_until s" for s t
    by (simp add: on_output_transcription_def Let_def)
  have i: "burst_count (fst (on_input_transcription s t)) = burst_count s \<and>
           burst_cooldown_until (fst (on_input_transcription s t)) = burst_cooldown_until s" for s t
    by (simp add: on_input_transcription_def)
  from assms show ?thesis
    by (auto simp: on_response_def Let_def case_prod_unfold o i split: if_splits option.splits)
qed

lemma turn_boundary_cases:
  assumes "turn_boundary st c now ra = (fl, st1, out)"
  shows "(fl = Return \<and> text_sends out = 0)
       \<or> (burst_due st now \<and> st1 = st\<lparr>burst_count := burst_count st + 1\<rparr> \<and> text_sends out \<le> 1)
       \<or> (\<not> burst_due st now \<and> burst_count st > 0 \<and> text_sends out = 0 \<and>
            st1 = st\<lparr>burst_cooldown_until := now + BURST_COOLDOWN_SECONDS, burst_count := 0\<rparr>)
       \<or> (\<not> burst_due st now \<and> burst_count st = 0 \<and> st1 = st \<and> text_sends out = 0)"
  using assms
  by (auto simp: turn_boundary_def burst_rule_def Let_def text_sends_append text_sends_adapter
      text_sends_simps split: if_splits prod.splits)

lemma bursts_bound:
  assumes "list_all (\<lambda>e. \<not> is_client_event e) evs"
    and "list_all (\<lambda>t. t < T \<and> T \<le> t + BURST_COOLDOWN_SECONDS) (boundary_times evs)"
  shows "bursts st evs \<le> (if T \<le> burst_cooldown_until st then 0
                            else BURST_MAX_FOLLOW_UPS - burst_count st)"
  using assms
proof (induction evs arbitrary: st)
  case Nil
  show ?case by simp
next
  case (Cons e evs)
  show ?case
  proof (cases e)
    case (Upstream now resp)
    obtain fl st1 out where r: "on_response st now resp = (fl, st1, out)"
      by (cases "on_response st now resp")
    from on_response_burst_fields [OF r]
    have f: "burst_count st1 = burst_count st" "burst_cooldown_until st1 = burst_cooldown_until st"
      by simp_all
    from Cons.prems Upstream have "list_all (\<lambda>e. \<not> is_client_event e) evs"
      and "list_all (\<lambda>t. t < T \<and> T \<le> t + BURST_COOLDOWN_SECONDS) (boundary_times evs)"
      by simp_all
    from Cons.IH [OF this, of st1]
    have "bursts st1 evs \<le> (if T \<le> burst_cooldown_until st then 0
                              else BURST_MAX_FOLLOW_UPS - burst_count st)"
      unfolding f .
    then show ?thesis
      by (auto simp: Upstream r split: if_splits)
  next
    case (TurnBoundary c now ra)
    obtain fl st1 out where r: "turn_boundary st c now ra = (fl, st1, out)"
      by (cases "turn_boundary st c now ra")
    from Cons.prems TurnBoundary have p: "list_all (\<lambda>e. \<not> is_client_event e) evs"
      "list_all (\<lambda>t. t < T \<and> T \<le> t + BURST_COOLDOWN_SECONDS) (boundary_times evs)"
      and t: "now < T" "T \<le> now + BURST_COOLDOWN_SECONDS"
      by simp_all
    note ih = Cons.IH [OF p, of st1]
    from turn_boundary_cases [OF r] show ?thesis
    proof (elim disjE conjE)
      assume "fl = Return" "text_sends out = 0"
      then show ?thesis by (simp add: TurnBoundary r)
    next
      assume d: "burst_due st now" and s: "st1 = st\<lparr>burst_count := burst_count st + 1\<rparr>"
        and o: "text_sends out \<le> 1"
      from d t have c: "\<not> T \<le> burst_cooldown_until st" "burst_count st < BURST_MAX_FOLLOW_UPS"
        by (simp_all add: burst_due_def)
      from ih s c have "bursts st1 evs \<le> BURST_MAX_FOLLOW_UPS - (burst_count st + 1)" by simp
      with o c show ?thesis by (auto simp: TurnBoundary r)
    next
      assume o: "text_sends out = 0"
        and s: "st1 = st\<lparr>burst_cooldown_until := now + BURST_COOLDOWN_SECONDS, burst_count := 0\<rparr>"
      from ih s t have "bursts st1 evs = 0" by simp
      with o show ?thesis by (simp add: TurnBoundary r)
    next
      assume s: "st1 = st" and o: "text_sends out = 0"
      from ih have "bursts st evs \<le> (if T \<le> burst_cooldown_until st then 0
                                     else BURST_MAX_FOLLOW_UPS - burst_count st)"
        unfolding s .
      then show ?thesis by (auto simp: TurnBoundary r s o split: if_splits)
    qed
  next
    case (Client now s c msg)
    with Cons.prems show ?thesis by simp
  qed
qed

lemma window_bound:
  assumes "within_window w evs" "boundary_times evs \<noteq> []"
  shows "\<exists>T. list_all (\<lambda>t. t < T \<and> T \<le> t + w) (boundary_times evs)"
proof -
  let ?ts = "boundary_times evs"
  let ?T = "Min (set ?ts) + w"
  have m: "Min (set ?ts) \<in> set ?ts" using assms(2) by (simp add: Min_in)
  have "\<forall>t\<in>set ?ts. t < ?T \<and> ?T \<le> t + w"
  proof
    fix t assume t: "t \<in> set ?ts"
    from assms(1) m t have "t < ?T" by (auto simp: within_window_def list_all_iff)
    moreover from t have "?T \<le> t + w" by simp
    ultimately show "t < ?T \<and> ?T \<le> t + w" ..
  qed
  then have "list_all (\<lambda>t. t < ?T \<and> ?T \<le> t + w) ?ts" by (simp add: list_all_iff)
  then show ?thesis ..
qed

text \<open>
  \<^bold>\<open>C4\<close> (amended). In an execution of routine (b) with no client message in between,
  whose turn boundaries all lie within a window shorter than the 30 s cooldown, at most
  3 burst follow-ups are sent, from any session state and whatever the emotions are.
  The cooldown starts at the first boundary that sends no burst while the counter is
  positive; it runs by the clock and does not ask for the arousal to be below the
  threshold.
\<close>

theorem bursts_within_cooldown_window:
  assumes "list_all (\<lambda>e. \<not> is_client_event e) evs"
    and "within_window BURST_COOLDOWN_SECONDS evs"
  shows "bursts st evs \<le> BURST_MAX_FOLLOW_UPS"
proof (cases "boundary_times evs = []")
  case True
  then have "list_all (\<lambda>t. t < 0 \<and> 0 \<le> t + BURST_COOLDOWN_SECONDS) (boundary_times evs)" by simp
  from bursts_bound [OF assms(1) this, of st] show ?thesis by (simp split: if_splits)
next
  case False
  from window_bound [OF assms(2) False] obtain T
    where "list_all (\<lambda>t. t < T \<and> T \<le> t + BURST_COOLDOWN_SECONDS) (boundary_times evs)" ..
  from bursts_bound [OF assms(1) this, of st] show ?thesis by (simp split: if_splits)
qed

lemma reconnect_first_ok: "reconnect 3 (\<lambda>attempt. True) = ([Close, Connect], True)"
  by (simp add: reconnect_def upt_rec)

lemma turn_boundary_connected:
  assumes "running st"
  shows "fst (turn_boundary st (\<lambda>attempt. True) now True) = Continue \<and>
         fst (snd (turn_boundary st (\<lambda>attempt. True) now True)) = fst (burst_rule st now True) \<and>
         text_sends (snd (snd (turn_boundary st (\<lambda>attempt. True) now True)))
           = (if burst_due st now then 1 else 0)"
  using assms
  by (simp add: turn_boundary_def reconnect_first_ok burst_rule_def Let_def case_prod_unfold
      text_sends_simps text_sends_append text_sends_adapter)

lemma bursts_boundary_connected:
  assumes "running st"
  shows "bursts st (TurnBoundary (\<lambda>attempt. True) now True # evs)
           = (if burst_due st now then 1 else 0) + bursts (fst (burst_rule st now True)) evs"
  using turn_boundary_connected [OF assms, of now]
  by (simp add: case_prod_unfold)

text \<open>
  A session with a rival of familiarity 8 and MBTI code ENFP; the upstream says
  "ok then", which holds no keyword, so the label is the bias label, excited.
\<close>

lemma heuristic_rival:
  "classify_emotion_heuristic (str ''ok then'') (Some (str ''Rival'')) 8 = str ''excited''"
proof -
  have "map_of RELATIONSHIP_EMOTION_BIAS (str ''Rival'') = Some (str ''excited'')"
    by (simp add: RELATIONSHIP_EMOTION_BIAS_def str_def)
  moreover have "str ''Rival'' \<noteq> []" by (simp add: str_def)
  ultimately show ?thesis by (simp add: heuristic_no_match [OF no_match_short])
qed

lemma classify_rival:
  "classify_to_circumplex (str ''ok then'') (Some (str ''Rival'')) 8 (Some (str ''ENFP''))
      (Some \<lparr>valence = 0.0, arousal = 0.2, label = str ''neutral'', intensity = str ''low''\<rparr>)
   = \<lparr>valence = 0.672, arousal = 0.76, label = str ''proud'', intensity = str ''high''\<rparr>"
proof -
  have g: "emotion_map_get (str ''excited'') = (0.8, 0.9)"
    by (simp add: emotion_map_get_def EMOTION_MAP_def str_def)
  have m: "apply_mbti_modifiers 0.8 0.9 (Some (str ''ENFP'')) = (0.96, 1)"
    by (simp add: apply_mbti_modifiers_def py_upper_def str_def clamp_def Let_def)
  have n1: "nearest_label 0.96 1 = str ''excited''" by (simp add: nl_eval)
  have n2: "nearest_label 0.672 0.76 = str ''proud''" by (simp add: nl_eval)
  have l: "label_to_circumplex (str ''excited'') (Some (str ''ENFP''))
      = \<lparr>valence = 0.96, arousal = 1, label = str ''excited'', intensity = str ''high''\<rparr>"
    using n1 m by (simp add: label_to_circumplex_def g intensity_from_arousal_def py_round3_def)
  have b: "apply_inertia \<lparr>valence = 0.0, arousal = 0.2, label = str ''neutral'', intensity = str ''low''\<rparr>
      \<lparr>valence = 0.96, arousal = 1, label = str ''excited'', intensity = str ''high''\<rparr> 5
     = \<lparr>valence = 0.672, arousal = 0.76, label = str ''proud'', intensity = str ''high''\<rparr>"
    using n2 by (simp add: apply_inertia_def inertia_weights_def clamp_def Let_def
        intensity_from_arousal_def py_round3_def)
  show ?thesis
    by (simp only: classify_to_circumplex_def Let_def heuristic_rival l option.case b)
qed

lemma four_bursts_at_high_arousal:
  assumes "running st" "BURST_AROUSAL_THRESHOLD \<le> arousal (current_emotion st)"
    and "burst_count st = 0" "burst_cooldown_until st \<le> 1"
  shows "bursts st
           [TurnBoundary (\<lambda>attempt. True) 1 True, TurnBoundary (\<lambda>attempt. True) 2 True,
            TurnBoundary (\<lambda>attempt. True) 3 True, TurnBoundary (\<lambda>attempt. True) 4 True,
            TurnBoundary (\<lambda>attempt. True) 34 True] = 4"
  using assms
  by (simp add: bursts_boundary_connected burst_rule_def burst_due_def
      BURST_MAX_FOLLOW_UPS_def BURST_COOLDOWN_SECONDS_def Let_def del: bursts.simps(3))

lemma three_bursts_in_window:
  assumes "running st" "BURST_AROUSAL_THRESHOLD \<le> arousal (current_emotion st)"
    and "burst_count st = 0" "burst_cooldown_until st \<le> 1"
  shows "bursts st
           [TurnBoundary (\<lambda>attempt. True) 1 True, TurnBoundary (\<lambda>attempt. True) 2 True,
            TurnBoundary (\<lambda>attempt. True) 3 True, TurnBoundary (\<lambda>attempt. True) 4 True,
            TurnBoundary (\<lambda>attempt. True) 20 True] = 3"
  using assms
  by (simp add: bursts_boundary_connected burst_rule_def burst_due_def
      BURST_MAX_FOLLOW_UPS_def BURST_COOLDOWN_SECONDS_def Let_def del: bursts.simps(3))

lemma rival_says_ok:
  "on_response
     (SessionState_init\<lparr>relationship_type := Some (str ''Rival''), familiarity_level := 8,
        mbti := Some (str ''ENFP'')\<rparr>) 0
     \<lparr>go_away = False,
      server_content = Some \<lparr>interrupted = False, turn_complete = False, model_turn = None,
        output_transcription = Some (str ''ok then''), input_transcription = None\<rparr>\<rparr>
   = (Continue,
      SessionState_init\<lparr>relationship_type := Some (str ''Rival''), familiarity_level := 8,
        mbti := Some (str ''ENFP''),
        current_emotion :=
          \<lparr>valence = 0.672, arousal = 0.76, label = str ''proud'', intensity = str ''high''\<rparr>,
        user_interacted_since_last_emotion := False,
        transcript_buffer :=
          [\<lparr>role = str ''model'', entry_text = str ''ok then'', entry_emotion = Some (str ''proud'')\<rparr>]\<rparr>,
      [WsSend (TextFrame (str ''ok then'') (str ''proud'') 0.672 0.76 (str ''high''))])"
proof -
  have s: "py_strip (str ''ok then'') \<noteq> []" "str ''ok then'' \<noteq> []"
    by (simp_all add: py_strip_def py_isspace_def str_def)
  show ?thesis
    using s classify_rival
    by (simp add: on_response_def on_output_transcription_def SessionState_init_def Let_def)
qed

theorem bursts_within_cooldown_window_witness:
  "list_all (\<lambda>e. \<not> is_client_event e)
     [TurnBoundary (\<lambda>attempt. True) 1 True, TurnBoundary (\<lambda>attempt. True) 2 True,
      TurnBoundary (\<lambda>attempt. True) 3 True, TurnBoundary (\<lambda>attempt. True) 4 True,
      TurnBoundary (\<lambda>attempt. True) 20 True] \<and>
   within_window BURST_COOLDOWN_SECONDS
     [TurnBoundary (\<lambda>attempt. True) 1 True, TurnBoundary (\<lambda>attempt. True) 2 True,
      TurnBoundary (\<lambda>attempt. True) 3 True, TurnBoundary (\<lambda>attempt. True) 4 True,
      TurnBoundary (\<lambda>attempt. True) 20 True] \<and>
   bursts (SessionState_init\<lparr>current_emotion :=
             \<lparr>valence = 0.672, arousal = 0.76, label = str ''proud'', intensity = str ''high''\<rparr>\<rparr>)
     [TurnBoundary (\<lambda>attempt. True) 1 True, TurnBoundary (\<lambda>attempt. True) 2 True,
      TurnBoundary (\<lambda>attempt. True) 3 True, TurnBoundary (\<lambda>attempt. True) 4 True,
      TurnBoundary (\<lambda>attempt. True) 20 True] \<le> BURST_MAX_FOLLOW_UPS"
proof -
  let ?evs = "[TurnBoundary (\<lambda>attempt. True) 1 True, TurnBoundary (\<lambda>attempt. True) 2 True,
      TurnBoundary (\<lambda>attempt. True) 3 True, TurnBoundary (\<lambda>attempt. True) 4 True,
      TurnBoundary (\<lambda>attempt. True) 20 True]"
  have c: "list_all (\<lambda>e. \<not> is_client_event e) ?evs" by simp
  have w: "within_window BURST_COOLDOWN_SECONDS ?evs"
    by (simp add: within_window_def BURST_COOLDOWN_SECONDS_def)
  from bursts_within_cooldown_window [OF c w] c w show ?thesis by blast
qed

theorem fourth_burst_counterexample:
  "bursts
     (SessionState_init\<lparr>relationship_type := Some (str ''Rival''), familiarity_level := 8,
        mbti := Some (str ''ENFP'')\<rparr>)
     [Upstream 0
        \<lparr>go_away = False,
         server_content = Some \<lparr>interrupted = False, turn_complete = False, model_turn = None,
           output_transcription = Some (str ''ok then''), input_transcription = None\<rparr>\<rparr>,
      TurnBoundary (\<lambda>attempt. True) 1 True, TurnBoundary (\<lambda>attempt. True) 2 True,
      TurnBoundary (\<lambda>attempt. True) 3 True, TurnBoundary (\<lambda>attempt. True) 4 True,
      TurnBoundary (\<lambda>attempt. True) 34 True] = 4 \<and>
   BURST_AROUSAL_THRESHOLD \<le> arousal (current_emotion (fst (snd (on_response
     (SessionState_init\<lparr>relationship_type := Some (str ''Rival''), familiarity_level := 8,
        mbti := Some (str ''ENFP'')\<rparr>) 0
     \<lparr>go_away = False,
      server_content = Some \<lparr>interrupted = False, turn_complete = False, model_turn = None,
        output_transcription = Some (str ''ok then''), input_transcription = None\<rparr>\<rparr>))))"
proof -
  let ?st1 = "SessionState_init\<lparr>relationship_type := Some (str ''Rival''), familiarity_level := 8,
        mbti := Some (str ''ENFP''),
        current_emotion :=
          \<lparr>valence = 0.672, arousal = 0.76, label = str ''proud'', intensity = str ''high''\<rparr>,
        user_interacted_since_last_emotion := False,
        transcript_buffer :=
          [\<lparr>role = str ''model'', entry_text = str ''ok then'', entry_emotion = Some (str ''proud'')\<rparr>]\<rparr>"
  have f: "running ?st1" "BURST_AROUSAL_THRESHOLD \<le> arousal (current_emotion ?st1)"
    "burst_count ?st1 = 0" "burst_cooldown_until ?st1 \<le> 1"
    by (simp_all add: SessionState_init_def BURST_AROUSAL_THRESHOLD_def)
  from four_bursts_at_high_arousal [OF f] f(2) show ?thesis
    by (simp add: rival_says_ok del: bursts.simps(3))
qed

lemma client_frame_resets_burst_count:
  "bursts (SessionState_init\<lparr>current_emotion :=
             \<lparr>valence = 0.672, arousal = 0.76, label = str ''proud'', intensity = str ''high''\<rparr>\<rparr>)
     [TurnBoundary (\<lambda>attempt. True) 1 True, TurnBoundary (\<lambda>attempt. True) 2 True,
      TurnBoundary (\<lambda>attempt. True) 3 True,
      Client 3.5 (\<lambda>attempt. True) (\<lambda>attempt n. True) (AudioMsg []),
      TurnBoundary (\<lambda>attempt. True) 4 True] = 4"
  by (simp add: bursts_boundary_connected burst_rule_def burst_due_def on_client_message_def
      upt_rec SessionState_init_def BURST_AROUSAL_THRESHOLD_def
      BURST_MAX_FOLLOW_UPS_def BURST_COOLDOWN_SECONDS_def Let_def del: bursts.simps(3))

subsection \<open>Delayed proactive messages\<close>

lemma step_task_length: "length (tasks (step_task w l ok)) = length (tasks w)"
  by (simp add: step_task_def Let_def split: task_pc.splits)

lemma run_schedule_length: "length (tasks (run_schedule w sched)) = length (tasks w)"
  by (induction sched arbitrary: w) (auto simp: step_task_length)

lemma step_task_other:
  "l \<noteq> i \<Longrightarrow> tasks (step_task w l ok) ! i = tasks w ! i"
  by (simp add: step_task_def Let_def split: task_pc.splits)

lemma step_task_key: "task_key (tasks (step_task w l ok) ! i) = task_key (tasks w ! i)"
proof (cases "l = i")
  case False
  then show ?thesis by (simp add: step_task_other)
next
  case True
  show ?thesis
  proof (cases "i < length (tasks w)")
    case True
    with \<open>l = i\<close> show ?thesis by (simp add: step_task_def Let_def split: task_pc.splits)
  next
    case False
    with \<open>l = i\<close> show ?thesis by (simp add: step_task_def)
  qed
qed

text \<open>The first step of a task that finds the lock taken: it returns, nothing else changes.\<close>

lemma step_task_dropped:
  assumes "j < length (tasks w)" "pc (tasks w ! j) = Created"
    and "proactive_locks w (task_key (tasks w ! j)) = Some True"
  shows "step_task w j ok = w\<lparr>tasks := (tasks w)[j := (tasks w ! j)\<lparr>pc := Dropped\<rparr>]\<rparr>"
  using assms by (simp add: step_task_def Let_def)

text \<open>A task that has returned or finished takes no further step.\<close>

lemma step_task_dropped_stays:
  assumes "i < length (tasks w)" "pc (tasks w ! i) = Dropped"
  shows "pc (tasks (step_task w l ok) ! i) = Dropped"
proof (cases "l = i")
  case True
  with assms show ?thesis by (simp add: step_task_def Let_def)
next
  case False
  with assms show ?thesis by (simp add: step_task_other)
qed

lemma run_schedule_dropped_stays:
  "i < length (tasks w) \<Longrightarrow> pc (tasks w ! i) = Dropped \<Longrightarrow>
   pc (tasks (run_schedule w sched) ! i) = Dropped"
proof (induction sched arbitrary: w)
  case Nil
  then show ?case by simp
next
  case (Cons a sched)
  obtain l ok where a: "a = (l, ok)" by (cases a)
  from Cons.prems have "i < length (tasks (step_task w l ok))"
    and "pc (tasks (step_task w l ok) ! i) = Dropped"
    by (simp_all add: step_task_length step_task_dropped_stays)
  from Cons.IH [OF this] show ?case by (simp add: a)
qed

text \<open>The holder of the lock goes on to the guarded block, whatever the other tasks do.\<close>

lemma step_task_holding:
  assumes "i < length (tasks w)" "holding w i"
  shows "holding (step_task w l ok) i \<and> (executed w i \<longrightarrow> executed (step_task w l ok) i)
         \<and> (l = i \<longrightarrow> executed (step_task w l ok) i)"
proof (cases "l = i")
  case True
  with assms show ?thesis
    by (auto simp: holding_def executed_def step_task_def Let_def)
next
  case False
  with assms show ?thesis by (simp add: holding_def executed_def step_task_other)
qed

lemma run_schedule_executed:
  "i < length (tasks w) \<Longrightarrow> executed w i \<Longrightarrow> executed (run_schedule w sched) i"
proof (induction sched arbitrary: w)
  case Nil
  then show ?case by simp
next
  case (Cons a sched)
  obtain l ok where a: "a = (l, ok)" by (cases a)
  from Cons.prems have h: "holding w i" by (simp add: holding_def)
  from step_task_holding [OF Cons.prems(1) h, of l ok] Cons.prems(2)
  have "executed (step_task w l ok) i" by simp
  with Cons.IH [of "step_task w l ok"] Cons.prems(1) show ?case
    by (simp add: a step_task_length)
qed

lemma run_schedule_holder_executes:
  "i < length (tasks w) \<Longrightarrow> holding w i \<Longrightarrow> i \<in> fst ` set sched \<Longrightarrow>
   executed (run_schedule w sched) i"
proof (induction sched arbitrary: w)
  case Nil
  then show ?case by simp
next
  case (Cons a sched)
  obtain l ok where a: "a = (l, ok)" by (cases a)
  note s = step_task_holding [OF Cons.prems(1,2), of l ok]
  have len: "i < length (tasks (step_task w l ok))" using Cons.prems(1) by (simp add: step_task_length)
  show ?case
  proof (cases "l = i")
    case True
    with s have "executed (step_task w l ok) i" by simp
    from run_schedule_executed [OF len this] show ?thesis by (simp add: a)
  next
    case False
    with Cons.prems(3) a have "i \<in> fst ` set sched" by auto
    with Cons.IH [OF len] s show ?thesis by (simp add: a)
  qed
qed

lemma lock_invariant_empty: "lock_invariant empty_world"
  by (simp add: lock_invariant_def empty_world_def)

lemma lock_invariant_fire:
  assumes "lock_invariant w"
  shows "lock_invariant (fire_proactive_task w user_id character_id emotion)"
proof (cases "arousal emotion \<le> 0.65")
  case True
  with assms show ?thesis by (simp add: fire_proactive_task_def)
next
  case False
  let ?key = "(character_id, user_id)"
  let ?w' = "fire_proactive_task w user_id character_id emotion"
  have t: "tasks ?w' = tasks w @ [\<lparr>task_key = ?key, pc = Created\<rparr>]"
    using False by (simp add: fire_proactive_task_def Let_def)
  have r: "in_region ?w' i \<longleftrightarrow> i < length (tasks w) \<and> in_region w i"
    if "i < length (tasks ?w')" for i
    using that by (auto simp: t in_region_def nth_append less_Suc_eq)
  have k: "task_key (tasks ?w' ! i) = task_key (tasks w ! i)" if "i < length (tasks w)" for i
    using that by (simp add: t nth_append)
  have l: "proactive_locks ?w' key = Some True" if "proactive_locks w key = Some True" for key
    using that False by (auto simp: fire_proactive_task_def Let_def)
  show ?thesis
    unfolding lock_invariant_def
  proof (intro conjI allI impI)
    fix i j
    assume "i < length (tasks ?w')" "j < length (tasks ?w')"
      and "in_region ?w' i \<and> in_region ?w' j \<and> task_key (tasks ?w' ! i) = task_key (tasks ?w' ! j)"
    then have ij: "i < length (tasks w)" "j < length (tasks w)" "in_region w i" "in_region w j"
      and "task_key (tasks ?w' ! i) = task_key (tasks ?w' ! j)"
      by (simp_all add: r)
    then have "task_key (tasks w ! i) = task_key (tasks w ! j)"
      using k [of i] k [of j] by simp
    note ij = ij this
    with assms show "i = j" unfolding lock_invariant_def by blast
  next
    fix i
    assume "i < length (tasks ?w')" "in_region ?w' i"
    then have i: "i < length (tasks w)" "in_region w i" by (simp_all add: r)
    with assms have "proactive_locks w (task_key (tasks w ! i)) = Some True"
      unfolding lock_invariant_def by blast
    then show "proactive_locks ?w' (task_key (tasks ?w' ! i)) = Some True"
      using i(1) by (simp add: k l)
  qed
qed

lemma lock_invariantI:
  assumes "\<And>i j. i < length (tasks w) \<Longrightarrow> j < length (tasks w) \<Longrightarrow> in_region w i \<Longrightarrow>
      in_region w j \<Longrightarrow> task_key (tasks w ! i) = task_key (tasks w ! j) \<Longrightarrow> i = j"
    and "\<And>i. i < length (tasks w) \<Longrightarrow> in_region w i \<Longrightarrow>
      proactive_locks w (task_key (tasks w ! i)) = Some True"
  shows "lock_invariant w"
  unfolding lock_invariant_def using assms by blast

lemma in_region_step_other:
  "i \<noteq> l \<Longrightarrow> in_region (step_task w l ok) i = in_region w i"
  by (simp add: in_region_def step_task_other)

lemma lock_invariant_step:
  assumes "lock_invariant w"
  shows "lock_invariant (step_task w l ok)"
proof (cases "l < length (tasks w)")
  case False
  with assms show ?thesis by (simp add: step_task_def)
next
  case True
  let ?w' = "step_task w l ok"
  let ?key = "task_key (tasks w ! l)"
  from assms have uniq: "\<And>i j. i < length (tasks w) \<Longrightarrow> j < length (tasks w) \<Longrightarrow>
      in_region w i \<Longrightarrow> in_region w j \<Longrightarrow> task_key (tasks w ! i) = task_key (tasks w ! j) \<Longrightarrow> i = j"
    and held: "\<And>i. i < length (tasks w) \<Longrightarrow> in_region w i \<Longrightarrow>
      proactive_locks w (task_key (tasks w ! i)) = Some True"
    unfolding lock_invariant_def by blast+
  note len = step_task_length [of w l ok]
  note key = step_task_key [of w l ok]
  note oth = in_region_step_other [of _ l w ok]
  consider (drop) "pc (tasks w ! l) = Created" "proactive_locks w ?key = Some True"
    | (take) "pc (tasks w ! l) = Created" "proactive_locks w ?key \<noteq> Some True"
    | (wake) "pc (tasks w ! l) = Sleeping"
    | (leave) "pc (tasks w ! l) = Generating"
    | (idle) "pc (tasks w ! l) = Dropped \<or> pc (tasks w ! l) = Finished"
    by (cases "pc (tasks w ! l)") auto
  then show ?thesis
  proof cases
    case drop
    have l: "\<not> in_region ?w' l" "\<not> in_region w l"
      and locks: "proactive_locks ?w' = proactive_locks w"
      using drop True by (simp_all add: in_region_def step_task_def Let_def)
    have r: "in_region ?w' i = in_region w i" for i
      using l oth [of i] by (cases "i = l") simp_all
    show ?thesis
      by (rule lock_invariantI) (use uniq held in \<open>auto simp: r len key locks\<close>)
  next
    case take
    have l: "in_region ?w' l"
      and locks: "proactive_locks ?w' = (proactive_locks w)(?key \<mapsto> True)"
      using take True by (simp_all add: in_region_def step_task_def Let_def)
    have free: "\<not> in_region w i" if "i < length (tasks w)" "task_key (tasks w ! i) = ?key" for i
      using held [OF that(1)] that(2) take(2) by auto
    show ?thesis
    proof (rule lock_invariantI)
      fix i j
      assume a: "i < length (tasks ?w')" "j < length (tasks ?w')" "in_region ?w' i" "in_region ?w' j"
        "task_key (tasks ?w' ! i) = task_key (tasks ?w' ! j)"
      show "i = j"
      proof (cases "i = l"; cases "j = l")
        assume "i = l" "j \<noteq> l"
        with a oth [of j] free [of j] show ?thesis by (simp add: len key)
      next
        assume "i \<noteq> l" "j = l"
        with a oth [of i] free [of i] show ?thesis by (simp add: len key)
      next
        assume "i \<noteq> l" "j \<noteq> l"
        with a oth [of i] oth [of j] uniq [of i j] show ?thesis by (simp add: len key)
      qed simp
    next
      fix i
      assume a: "i < length (tasks ?w')" "in_region ?w' i"
      show "proactive_locks ?w' (task_key (tasks ?w' ! i)) = Some True"
      proof (cases "i = l")
        case True
        then show ?thesis by (simp add: locks key)
      next
        case False
        with a oth [of i] held [of i] show ?thesis by (simp add: locks key len)
      qed
    qed
  next
    case wake
    have l: "in_region ?w' l" "in_region w l"
      and locks: "proactive_locks ?w' = proactive_locks w"
      using wake True by (simp_all add: in_region_def step_task_def Let_def)
    have r: "in_region ?w' i = in_region w i" for i
      using l oth [of i] by (cases "i = l") simp_all
    show ?thesis
      by (rule lock_invariantI) (use uniq held in \<open>auto simp: r len key locks\<close>)
  next
    case leave
    have l: "\<not> in_region ?w' l" "in_region w l"
      and locks: "proactive_locks ?w' = (proactive_locks w)(?key \<mapsto> False)"
      using leave True by (simp_all add: in_region_def step_task_def Let_def)
    show ?thesis
    proof (rule lock_invariantI)
      fix i j
      assume a: "i < length (tasks ?w')" "j < length (tasks ?w')" "in_region ?w' i" "in_region ?w' j"
        "task_key (tasks ?w' ! i) = task_key (tasks ?w' ! j)"
      then have "i \<noteq> l" "j \<noteq> l" using l(1) by auto
      with a oth [of i] oth [of j] uniq [of i j] show "i = j" by (simp add: len key)
    next
      fix i
      assume a: "i < length (tasks ?w')" "in_region ?w' i"
      then have n: "i \<noteq> l" using l(1) by auto
      with a oth [of i] have i: "i < length (tasks w)" "in_region w i" by (simp_all add: len)
      have "task_key (tasks w ! i) \<noteq> ?key"
        using uniq [OF i(1) True i(2) l(2)] n by auto
      with held [OF i] show "proactive_locks ?w' (task_key (tasks ?w' ! i)) = Some True"
        by (simp add: locks key)
    qed
  next
    case idle
    with True have "?w' = w" by (auto simp: step_task_def Let_def)
    with assms show ?thesis by simp
  qed
qed

lemma lock_invariant_run: "lock_invariant w \<Longrightarrow> lock_invariant (run_schedule w sched)"
  by (induction sched arbitrary: w) (auto simp: lock_invariant_step)

lemma fire_proactive_task_tasks:
  assumes "0.65 < arousal e"
  shows "tasks (fire_proactive_task w u c e) = tasks w @ [\<lparr>task_key = (c, u), pc = Created\<rparr>]"
    and "persisted (fire_proactive_task w u c e) = persisted w"
  using assms by (simp_all add: fire_proactive_task_def Let_def)

lemma run_schedule_untouched:
  "l \<notin> fst ` set sched \<Longrightarrow> tasks (run_schedule w sched) ! l = tasks w ! l"
proof (induction sched arbitrary: w)
  case Nil
  then show ?case by simp
next
  case (Cons a sched)
  obtain i ok where a: "a = (i, ok)" by (cases a)
  with Cons.prems have "i \<noteq> l" "l \<notin> fst ` set sched" by auto
  with Cons.IH [of "step_task w i ok"] show ?case by (simp add: a step_task_other)
qed

lemma run_schedule_key:
  "task_key (tasks (run_schedule w sched) ! i) = task_key (tasks w ! i)"
proof (induction sched arbitrary: w)
  case Nil
  then show ?case by simp
next
  case (Cons a sched)
  obtain l ok where a: "a = (l, ok)" by (cases a)
  from Cons.IH [of "step_task w l ok"] show ?case by (simp add: a step_task_key)
qed

lemma lock_invariant_held:
  "lock_invariant w \<Longrightarrow> i < length (tasks w) \<Longrightarrow> in_region w i \<Longrightarrow>
   proactive_locks w (task_key (tasks w ! i)) = Some True"
  by (simp add: lock_invariant_def)

lemma step_task_dropped_noop:
  "pc (tasks v ! j) = Dropped \<Longrightarrow> step_task v j ok = v"
  by (simp add: step_task_def Let_def)

text \<open>
  With the second task dropped, a schedule of the two tasks in which every generation
  succeeds persists one message, at the holder's last step.
\<close>

lemma run_schedule_one_message:
  assumes "i < length (tasks v)" "j < length (tasks v)" "pc (tasks v ! j) = Dropped"
    and "task_key (tasks v ! i) = k"
    and "fst ` set sched \<subseteq> {i, j}" "\<forall>x \<in> set sched. snd x"
    and "(in_region v i \<and> persisted v = base) \<or>
         (pc (tasks v ! i) = Finished \<and> persisted v = base @ [k])"
  shows "persisted (run_schedule v sched)
           = base @ (if pc (tasks (run_schedule v sched) ! i) = Finished then [k] else [])"
  using assms
proof (induction sched arbitrary: v)
  case Nil
  then show ?case by (auto simp: in_region_def)
next
  case (Cons a sched)
  obtain l ok where a: "a = (l, ok)" by (cases a)
  from Cons.prems(5,6) a have l: "l = i \<or> l = j" and ok: "ok"
    and rest: "fst ` set sched \<subseteq> {i, j}" "\<forall>x \<in> set sched. snd x"
    by auto
  let ?v' = "step_task v l ok"
  have len: "i < length (tasks ?v')" "j < length (tasks ?v')"
    using Cons.prems(1,2) by (simp_all add: step_task_length)
  have key: "task_key (tasks ?v' ! i) = k" using Cons.prems(4) by (simp add: step_task_key)
  have stay: "pc (tasks ?v' ! j) = Dropped"
    using Cons.prems(2,3) by (rule step_task_dropped_stays)
  have inv: "(in_region ?v' i \<and> persisted ?v' = base) \<or>
         (pc (tasks ?v' ! i) = Finished \<and> persisted ?v' = base @ [k])"
  proof (cases "l = i")
    case True
    with Cons.prems(1,4,7) ok show ?thesis
      by (auto simp: in_region_def step_task_def Let_def)
  next
    case False
    with l have "l = j" by simp
    with Cons.prems(3) have "?v' = v" by (simp add: step_task_dropped_noop)
    with Cons.prems(7) show ?thesis by simp
  qed
  from Cons.IH [OF len stay key rest inv] show ?case by (simp add: a)
qed

text \<open>
  \<^bold>\<open>C7\<close> (amended). In a world that satisfies the lock invariant, a trigger with an
  arousal above 0.65 fires for the pair of a task \<open>i\<close>; it creates a task \<open>j\<close>. Other
  steps may follow, and \<open>j\<close> takes its first step, the test \<open>lock.locked()\<close>, while
  \<open>i\<close> is still in the guarded region. Then the lock of the pair is held at that step,
  and \<open>j\<close> returns without touching the lock or the stored messages; under every
  schedule that follows \<open>j\<close> stays dropped and never enters the generate-and-persist
  block, and \<open>i\<close> enters it as soon as it is scheduled. When only the two tasks run and
  every generation succeeds, one message is persisted, once \<open>i\<close> has finished.
\<close>

theorem concurrent_trigger_dropped:
  assumes "lock_invariant w" "i < length (tasks w)" "task_key (tasks w ! i) = (c, u)"
    and "0.65 < arousal e"
    and "length (tasks w) \<notin> fst ` set pre"
    and "in_region (run_schedule (fire_proactive_task w u c e) pre) i"
  shows "tasks (fire_proactive_task w u c e) ! length (tasks w)
           = \<lparr>task_key = (c, u), pc = Created\<rparr>
       \<and> proactive_locks (run_schedule (fire_proactive_task w u c e) pre) (c, u) = Some True
       \<and> pc (tasks (step_task (run_schedule (fire_proactive_task w u c e) pre)
               (length (tasks w)) ok) ! length (tasks w)) = Dropped
       \<and> proactive_locks (step_task (run_schedule (fire_proactive_task w u c e) pre)
               (length (tasks w)) ok)
           = proactive_locks (run_schedule (fire_proactive_task w u c e) pre)
       \<and> persisted (step_task (run_schedule (fire_proactive_task w u c e) pre)
               (length (tasks w)) ok)
           = persisted (run_schedule (fire_proactive_task w u c e) pre)
       \<and> pc (tasks (run_schedule (step_task (run_schedule (fire_proactive_task w u c e) pre)
               (length (tasks w)) ok) sched) ! length (tasks w)) = Dropped
       \<and> \<not> executed (run_schedule (step_task (run_schedule (fire_proactive_task w u c e) pre)
               (length (tasks w)) ok) sched) (length (tasks w))
       \<and> (i \<in> fst ` set sched \<longrightarrow>
            executed (run_schedule (step_task (run_schedule (fire_proactive_task w u c e) pre)
               (length (tasks w)) ok) sched) i)
       \<and> (fst ` set sched \<subseteq> {i, length (tasks w)} \<and> (\<forall>x \<in> set sched. snd x) \<longrightarrow>
            persisted (run_schedule (step_task (run_schedule (fire_proactive_task w u c e) pre)
               (length (tasks w)) ok) sched)
            = persisted (run_schedule (fire_proactive_task w u c e) pre)
              @ (if pc (tasks (run_schedule (step_task (run_schedule
                        (fire_proactive_task w u c e) pre) (length (tasks w)) ok) sched) ! i)
                      = Finished
                 then [(c, u)] else []))"
proof -
  let ?j = "length (tasks w)"
  let ?w1 = "fire_proactive_task w u c e"
  let ?w2 = "run_schedule ?w1 pre"
  let ?w3 = "step_task ?w2 ?j ok"
  note t1 = fire_proactive_task_tasks [OF assms(4), of w u c]
  have new: "tasks ?w1 ! ?j = \<lparr>task_key = (c, u), pc = Created\<rparr>" by (simp add: t1)
  have len1: "length (tasks ?w1) = Suc ?j" by (simp add: t1)
  have len2: "?j < length (tasks ?w2)" "i < length (tasks ?w2)"
    using assms(2) by (simp_all add: run_schedule_length len1)
  have inv2: "lock_invariant ?w2"
    using assms(1) by (intro lock_invariant_run lock_invariant_fire)
  have key_i: "task_key (tasks ?w2 ! i) = (c, u)"
    using assms(2,3) by (simp add: run_schedule_key t1 nth_append)
  have held: "proactive_locks ?w2 (c, u) = Some True"
    using lock_invariant_held [OF inv2 len2(2) assms(6)] by (simp add: key_i)
  have j2: "tasks ?w2 ! ?j = \<lparr>task_key = (c, u), pc = Created\<rparr>"
    using run_schedule_untouched [OF assms(5), of ?w1] new by simp
  have w3: "?w3 = ?w2\<lparr>tasks := (tasks ?w2)[?j := (tasks ?w2 ! ?j)\<lparr>pc := Dropped\<rparr>]\<rparr>"
    using len2(1) by (intro step_task_dropped) (simp_all add: j2 held)
  have d3: "pc (tasks ?w3 ! ?j) = Dropped" using len2(1) by (simp add: w3)
  have same: "proactive_locks ?w3 = proactive_locks ?w2" "persisted ?w3 = persisted ?w2"
    by (simp_all add: w3)
  have len3: "?j < length (tasks ?w3)" "i < length (tasks ?w3)"
    using len2 by (simp_all add: step_task_length)
  have stay: "pc (tasks (run_schedule ?w3 sched) ! ?j) = Dropped"
    using len3(1) d3 by (rule run_schedule_dropped_stays)
  have ne: "i \<noteq> ?j" using assms(2) by simp
  have reg3: "in_region ?w3 i"
    using assms(6) ne by (simp add: in_region_def step_task_other)
  then have h: "holding ?w3 i" by (auto simp: in_region_def holding_def executed_def)
  have ex: "i \<in> fst ` set sched \<longrightarrow> executed (run_schedule ?w3 sched) i"
    using run_schedule_holder_executes [OF len3(2) h] by blast
  have key3: "task_key (tasks ?w3 ! i) = (c, u)" using key_i by (simp add: step_task_key)
  have one: "fst ` set sched \<subseteq> {i, ?j} \<and> (\<forall>x \<in> set sched. snd x) \<longrightarrow>
      persisted (run_schedule ?w3 sched)
        = persisted ?w2 @ (if pc (tasks (run_schedule ?w3 sched) ! i) = Finished
                           then [(c, u)] else [])"
  proof
    assume a: "fst ` set sched \<subseteq> {i, ?j} \<and> (\<forall>x \<in> set sched. snd x)"
    have "(in_region ?w3 i \<and> persisted ?w3 = persisted ?w2) \<or>
          (pc (tasks ?w3 ! i) = Finished \<and> persisted ?w3 = persisted ?w2 @ [(c, u)])"
      using reg3 same(2) by simp
    from run_schedule_one_message [OF len3(2) len3(1) d3 key3 _ _ this, of sched] a
    show "persisted (run_schedule ?w3 sched)
        = persisted ?w2 @ (if pc (tasks (run_schedule ?w3 sched) ! i) = Finished
                           then [(c, u)] else [])"
      by blast
  qed
  have nex: "\<not> executed (run_schedule ?w3 sched) ?j" using stay by (simp add: executed_def)
  from new held d3 same stay nex ex one show ?thesis by blast
qed

text \<open>
  A first trigger for the pair (c1, u1) at arousal 0.9 whose task has taken the lock
  and sleeps.
\<close>

lemma first_trigger_world:
  "step_task
     (fire_proactive_task empty_world (str ''u1'') (str ''c1'')
        \<lparr>valence = 0.8, arousal = 0.9, label = str ''excited'', intensity = str ''high''\<rparr>)
     0 True
   = \<lparr>proactive_locks = (\<lambda>k. None)((str ''c1'', str ''u1'') \<mapsto> True),
      tasks = [\<lparr>task_key = (str ''c1'', str ''u1''), pc = Sleeping\<rparr>],
      persisted = []\<rparr>"
  by (simp add: fire_proactive_task_def empty_world_def step_task_def Let_def)

lemma first_trigger_invariant:
  "lock_invariant
     \<lparr>proactive_locks = (\<lambda>k. None)((str ''c1'', str ''u1'') \<mapsto> True),
      tasks = [\<lparr>task_key = (str ''c1'', str ''u1''), pc = Sleeping\<rparr>],
      persisted = []\<rparr>"
  using lock_invariant_step [OF lock_invariant_fire [OF lock_invariant_empty],
      of "str ''u1''" "str ''c1''"
      "\<lparr>valence = 0.8, arousal = 0.9, label = str ''excited'', intensity = str ''high''\<rparr>" 0 True]
  by (simp only: first_trigger_world)

theorem concurrent_trigger_dropped_witness:
  "lock_invariant
     \<lparr>proactive_locks = (\<lambda>k. None)((str ''c1'', str ''u1'') \<mapsto> True),
      tasks = [\<lparr>task_key = (str ''c1'', str ''u1''), pc = Sleeping\<rparr>],
      persisted = []\<rparr> \<and>
   pc (tasks (run_schedule (step_task (run_schedule (fire_proactive_task
        \<lparr>proactive_locks = (\<lambda>k. None)((str ''c1'', str ''u1'') \<mapsto> True),
         tasks = [\<lparr>task_key = (str ''c1'', str ''u1''), pc = Sleeping\<rparr>],
         persisted = []\<rparr> (str ''u1'') (str ''c1'')
        \<lparr>valence = 0.8, arousal = 0.9, label = str ''excited'', intensity = str ''high''\<rparr>)
        [(0, True)]) 1 True) [(0, True), (1, True), (0, True)]) ! 1) = Dropped \<and>
   persisted (run_schedule (step_task (run_schedule (fire_proactive_task
        \<lparr>proactive_locks = (\<lambda>k. None)((str ''c1'', str ''u1'') \<mapsto> True),
         tasks = [\<lparr>task_key = (str ''c1'', str ''u1''), pc = Sleeping\<rparr>],
         persisted = []\<rparr> (str ''u1'') (str ''c1'')
        \<lparr>valence = 0.8, arousal = 0.9, label = str ''excited'', intensity = str ''high''\<rparr>)
        [(0, True)]) 1 True) [(0, True), (1, True), (0, True)])
     = [(str ''c1'', str ''u1'')]"
proof -
  let ?w = "\<lparr>proactive_locks = (\<lambda>k. None)((str ''c1'', str ''u1'') \<mapsto> True),
      tasks = [\<lparr>task_key = (str ''c1'', str ''u1''), pc = Sleeping\<rparr>],
      persisted = []\<rparr>"
  let ?e = "\<lparr>valence = 0.8, arousal = 0.9, label = str ''excited'', intensity = str ''high''\<rparr>"
  have h: "(0::nat) < length (tasks ?w)" "task_key (tasks ?w ! 0) = (str ''c1'', str ''u1'')"
    "0.65 < arousal ?e" "length (tasks ?w) \<notin> fst ` set [(0::nat, True)]"
    by simp_all
  have r: "in_region (run_schedule (fire_proactive_task ?w (str ''u1'') (str ''c1'') ?e)
      [(0, True)]) 0"
    by (simp add: in_region_def fire_proactive_task_def step_task_def Let_def)
  have f: "pc (tasks (run_schedule (step_task (run_schedule (fire_proactive_task ?w
      (str ''u1'') (str ''c1'') ?e) [(0, True)]) 1 True) [(0, True), (1, True), (0, True)]) ! 0)
      = Finished"
    by (simp add: fire_proactive_task_def step_task_def Let_def)
  have p: "persisted (run_schedule (fire_proactive_task ?w (str ''u1'') (str ''c1'') ?e)
      [(0, True)]) = []"
    by (simp add: fire_proactive_task_def step_task_def Let_def)
  from concurrent_trigger_dropped [OF first_trigger_invariant h r, of True
      "[(0, True), (1, True), (0, True)]"] f p first_trigger_invariant
  show ?thesis by simp
qed

text \<open>
  The second trigger fires while the first task holds the lock, in its generation; the
  first task then leaves the block and releases the lock before the second takes its
  first step. The second finds the lock free, and both persist a message.
\<close>

theorem late_start_counterexample:
  "proactive_locks
     (run_schedule
        (fire_proactive_task empty_world (str ''u1'') (str ''c1'')
           \<lparr>valence = 0.8, arousal = 0.9, label = str ''excited'', intensity = str ''high''\<rparr>)
        [(0, True), (0, True)])
     (str ''c1'', str ''u1'') = Some True \<and>
   persisted
     (run_schedule
        (fire_proactive_task
           (run_schedule
              (fire_proactive_task empty_world (str ''u1'') (str ''c1'')
                 \<lparr>valence = 0.8, arousal = 0.9, label = str ''excited'', intensity = str ''high''\<rparr>)
              [(0, True), (0, True)])
           (str ''u1'') (str ''c1'')
           \<lparr>valence = 0.8, arousal = 0.9, label = str ''excited'', intensity = str ''high''\<rparr>)
        [(0, True), (1, True), (1, True), (1, True)])
   = [(str ''c1'', str ''u1''), (str ''c1'', str ''u1'')]"
  by (simp add: fire_proactive_task_def empty_world_def step_task_def Let_def)

end
